(* ===== verification/Prelude.thy ===== *)
theory Prelude
  imports Main "HOL-Library.List_Lexorder" "HOL-Library.Char_ord" "HOL-Library.Multiset"
begin

text \<open>
  Shared vocabulary of the development. \<^verbatim>\<open>src/run.ts\<close> is a script whose functions
  mutate the outside world (files, processes) and signal failure by throwing. Every such
  function is modelled as a state transformer with exceptions:
  \<open>('s, 'a) exc = 's \<Rightarrow> (js_error + 'a) \<times> 's\<close>. The state after a throw is kept,
  because the script's \<open>catch\<close> block runs in the world the failed step left behind.
  The collections \<open>exc_simps\<close> and \<open>js_simps\<close> hold the characteristic equations
  that the component theories use to compute with these combinators.
\<close>

named_theorems exc_simps "equations of the exception-state combinators"
named_theorems js_simps "equations of the JavaScript and Node.js runtime model"

section \<open>Exceptions thrown by the script\<close>

text \<open>
  Three kinds of exceptions occur in the script: the \<open>Error\<close> that
  \<open>child_process.execSync\<close> throws when a command exits with a non-zero status
  (its message is \<open>Command failed: <cmd>\<close>; with \<open>stdio: 'inherit'\<close> no stderr
  text is appended), the \<open>TypeError\<close> of reading index 1 of the \<open>null\<close>
  that a failed \<open>String.prototype.match\<close> returns, and the errors of the
  \<open>fs\<close> calls (\<open>mkdirSync\<close>, \<open>readdirSync\<close>) on a folder that cannot be
  created or read; the argument of \<open>Fs_error\<close> is Node's message for it.
\<close>

datatype js_error = Command_failed string | Type_error string | Fs_error string

fun error_message :: "js_error \<Rightarrow> string" where
  "error_message (Command_failed c) = ''Command failed: '' @ c"
| "error_message (Type_error m) = m"
| "error_message (Fs_error m) = m"

section \<open>State transformers with exceptions\<close>

type_synonym ('s, 'a) exc = "'s \<Rightarrow> (js_error + 'a) \<times> 's"

definition returnE :: "'a \<Rightarrow> ('s, 'a) exc" where
  "returnE a = (\<lambda>s. (Inr a, s))"

definition throwE :: "js_error \<Rightarrow> ('s, 'a) exc" where
  "throwE e = (\<lambda>s. (Inl e, s))"

definition bindE :: "('s, 'a) exc \<Rightarrow> ('a \<Rightarrow> ('s, 'b) exc) \<Rightarrow> ('s, 'b) exc" where
  "bindE m f = (\<lambda>s. case m s of (Inl e, s') \<Rightarrow> (Inl e, s') | (Inr a, s') \<Rightarrow> f a s')"

definition thenE :: "('s, unit) exc \<Rightarrow> ('s, 'b) exc \<Rightarrow> ('s, 'b) exc" where
  "thenE m n = bindE m (\<lambda>_. n)"

definition skipE :: "('s, unit) exc" where
  "skipE = returnE ()"

definition modifyE :: "('s \<Rightarrow> 's) \<Rightarrow> ('s, unit) exc" where
  "modifyE f = (\<lambda>s. (Inr (), f s))"

definition catchE :: "('s, 'a) exc \<Rightarrow> (js_error \<Rightarrow> ('s, 'a) exc) \<Rightarrow> ('s, 'a) exc" where
  "catchE m h = (\<lambda>s. case m s of (Inl e, s') \<Rightarrow> h e s' | r \<Rightarrow> r)"

text \<open>Running a list of actions in order, as a sequence of statements does.\<close>

fun seqE :: "('s, unit) exc list \<Rightarrow> ('s, unit) exc" where
  "seqE [] = skipE"
| "seqE (m # ms) = thenE m (seqE ms)"

lemma returnE_apply [exc_simps]: "returnE a s = (Inr a, s)"
  by (simp add: returnE_def)

lemma throwE_apply [exc_simps]: "throwE e s = (Inl e, s)"
  by (simp add: throwE_def)

lemma skipE_apply [exc_simps]: "skipE s = (Inr (), s)"
  by (simp add: skipE_def returnE_def)

lemma modifyE_apply [exc_simps]: "modifyE f s = (Inr (), f s)"
  by (simp add: modifyE_def)

lemma bindE_apply [exc_simps]:
  "bindE m f s = (case m s of (Inl e, s') \<Rightarrow> (Inl e, s') | (Inr a, s') \<Rightarrow> f a s')"
  by (simp add: bindE_def)

lemma thenE_apply [exc_simps]:
  "thenE m n s = (case m s of (Inl e, s') \<Rightarrow> (Inl e, s') | (Inr _, s') \<Rightarrow> n s')"
  by (simp add: thenE_def bindE_def)

lemma catchE_apply [exc_simps]:
  "catchE m h s = (case m s of (Inl e, s') \<Rightarrow> h e s' | (Inr a, s') \<Rightarrow> (Inr a, s'))"
  by (simp add: catchE_def split: prod.splits sum.splits)

lemma thenE_Inr [exc_simps]: "m s = (Inr u, s') \<Longrightarrow> thenE m n s = n s'"
  by (simp add: thenE_apply)

lemma thenE_Inl [exc_simps]: "m s = (Inl e, s') \<Longrightarrow> thenE m n s = (Inl e, s')"
  by (simp add: thenE_apply)

lemma thenE_assoc: "thenE (thenE m n) k = thenE m (thenE n k)"
  by (rule ext) (simp add: thenE_apply split: prod.splits sum.splits)

lemma skipE_thenE [simp]: "thenE skipE n = n"
  by (rule ext) (simp add: thenE_apply skipE_apply)

lemma thenE_skipE [simp]: "thenE m skipE = m"
  by (rule ext) (simp add: thenE_apply skipE_apply split: prod.splits sum.splits)

lemma seqE_append: "seqE (ms @ ns) = thenE (seqE ms) (seqE ns)"
  by (induction ms) (simp_all add: thenE_assoc)

text \<open>
  A property kept by every action of a sequence holds after the sequence, whether it
  completes or stops at a throw: the induction that all invariants of the orchestrator
  below are built from.
\<close>

lemma seqE_preserves:
  assumes "\<And>m s r s'. m \<in> set ms \<Longrightarrow> P s \<Longrightarrow> m s = (r, s') \<Longrightarrow> P s'"
    and "P s" and "seqE ms s = (r, s')"
  shows "P s'"
  using assms
proof (induction ms arbitrary: s)
  case Nil
  then show ?case by (simp add: skipE_apply)
next
  case (Cons m ms)
  obtain r1 s1 where m: "m s = (r1, s1)" by fastforce
  with Cons.prems(1,2) have P1: "P s1" by auto
  show ?case
  proof (cases r1)
    case (Inl e)
    with Cons.prems(3) m P1 show ?thesis by (simp add: thenE_apply)
  next
    case (Inr u)
    with Cons.prems(3) m have seq: "seqE ms s1 = (r, s')" by (simp add: thenE_apply)
    have step: "\<And>m s r s'. m \<in> set ms \<Longrightarrow> P s \<Longrightarrow> m s = (r, s') \<Longrightarrow> P s'"
      using Cons.prems(1) by auto
    show ?thesis by (rule Cons.IH [OF step P1 seq])
  qed
qed

end
