(* ===== verification/Js_Lib.thy ===== *)
theory Js_Lib
  imports Prelude
begin

text \<open>
  The JavaScript and Node.js library operations that \<^verbatim>\<open>src/run.ts\<close> calls, each
  defined by the ECMAScript or Node.js algorithm on the inputs the script gives it. They
  are not code of the repository and are not in the map of the development; the
  component theories use them where the source calls them. Strings are \<open>char\<close>
  lists: the script only handles ASCII names, paths and options.
\<close>

section \<open>Values of \<open>process.env\<close>\<close>

text \<open>
  A field of \<open>Partial<EnvParams>\<close> is either \<open>undefined\<close> (\<open>None\<close>) or a string.
  Truthiness: \<open>undefined\<close> and \<open>''''\<close> are falsy. \<open>a || d\<close> is \<open>a\<close> when
  \<open>a\<close> is truthy. A template literal \<open>`${a}`\<close> prints \<open>undefined\<close> for a
  missing value.
\<close>

definition js_truthy :: "string option \<Rightarrow> bool" where
  "js_truthy v = (case v of None \<Rightarrow> False | Some s \<Rightarrow> s \<noteq> [])"

definition js_or :: "string option \<Rightarrow> string \<Rightarrow> string" where
  "js_or v d = (case v of Some s \<Rightarrow> if s = [] then d else s | None \<Rightarrow> d)"

definition js_or_opt :: "string option \<Rightarrow> string option \<Rightarrow> string option" where
  "js_or_opt v w = (if js_truthy v then v else w)"

definition js_interp :: "string option \<Rightarrow> string" where
  "js_interp v = (case v of Some s \<Rightarrow> s | None \<Rightarrow> ''undefined'')"

lemma js_truthy_simps [simp, js_simps]:
  "js_truthy None = False" "js_truthy (Some s) = (s \<noteq> [])"
  by (simp_all add: js_truthy_def)

lemma js_or_truthy [js_simps]: "js_truthy v \<Longrightarrow> js_or v d = the v"
  by (auto simp: js_or_def js_truthy_def split: option.splits)

lemma js_or_falsy [js_simps]: "\<not> js_truthy v \<Longrightarrow> js_or v d = d"
  by (auto simp: js_or_def js_truthy_def split: option.splits)

lemma js_or_simps [simp, js_simps]:
  "js_or None d = d" "js_or (Some s) d = (if s = [] then d else s)"
  by (simp_all add: js_or_def)

lemma js_interp_simps [simp, js_simps]:
  "js_interp None = ''undefined''" "js_interp (Some s) = s"
  by (simp_all add: js_interp_def)

section \<open>Array.prototype.join and String.prototype.split\<close>

fun js_join :: "string \<Rightarrow> string list \<Rightarrow> string" where
  "js_join sep [] = []"
| "js_join sep [x] = x"
| "js_join sep (x # y # zs) = x @ sep @ js_join sep (y # zs)"

text \<open>\<open>s.split(c)\<close> for a one-character separator: the pieces between separators,
  empty pieces included; \<open>''''.split(c)\<close> is \<open>['''']\<close>.\<close>

fun js_split :: "char \<Rightarrow> string \<Rightarrow> string list" where
  "js_split c [] = [[]]"
| "js_split c (x # xs) =
     (if x = c then [] # js_split c xs
      else (case js_split c xs of w # ws \<Rightarrow> (x # w) # ws | [] \<Rightarrow> [[x]]))"

lemma js_join_Cons_Cons [js_simps]:
  "ws \<noteq> [] \<Longrightarrow> js_join sep (w # ws) = w @ sep @ js_join sep ws"
  by (cases ws) simp_all

lemma js_split_not_Nil [simp]: "js_split c s \<noteq> []"
  by (induction s) (auto split: list.splits)

lemma js_split_Cons_other:
  "x \<noteq> c \<Longrightarrow> js_split c (x # xs) = (x # hd (js_split c xs)) # tl (js_split c xs)"
  by (cases "js_split c xs") auto

lemma js_join_js_split [js_simps]: "js_join [c] (js_split c s) = s"
proof (induction s)
  case Nil
  then show ?case by simp
next
  case (Cons x xs)
  show ?case
  proof (cases "x = c")
    case True
    with Cons.IH show ?thesis by (simp add: js_join_Cons_Cons)
  next
    case False
    obtain w ws where split: "js_split c xs = w # ws"
      using js_split_not_Nil by (cases "js_split c xs") auto
    with Cons.IH False show ?thesis by (cases ws) simp_all
  qed
qed

lemma js_split_no_sep: "w \<in> set (js_split c s) \<Longrightarrow> c \<notin> set w"
proof (induction s arbitrary: w)
  case Nil
  then show ?case by simp
next
  case (Cons x xs)
  show ?case
  proof (cases "x = c")
    case True
    with Cons show ?thesis by auto
  next
    case False
    let ?S = "js_split c xs"
    have S: "hd ?S \<in> set ?S" "set (tl ?S) \<subseteq> set ?S"
      using js_split_not_Nil [of c xs] by (simp_all add: list.set_sel(2) subsetI)
    from Cons.prems have "w \<in> set ((x # hd ?S) # tl ?S)"
      by (simp only: js_split_Cons_other [OF False])
    then have "w = x # hd ?S \<or> w \<in> set (tl ?S)" by simp
    then show ?thesis
      using S False Cons.IH by auto
  qed
qed

lemma hd_js_split [js_simps]: "hd (js_split c s) = takeWhile (\<lambda>x. x \<noteq> c) s"
  by (induction s) (auto split: list.splits)

text \<open>\<open>s.replace(/x/g, y)\<close> for single characters.\<close>

definition replace_char :: "char \<Rightarrow> char \<Rightarrow> string \<Rightarrow> string" where
  "replace_char a b s = map (\<lambda>x. if x = a then b else x) s"

text \<open>\<open>s.replace(/p/, r)\<close> with a literal pattern and no \<open>g\<close> flag: only the first
  occurrence is replaced; a string without one is returned unchanged.\<close>

fun replace_first :: "string \<Rightarrow> string \<Rightarrow> string \<Rightarrow> string" where
  "replace_first p r [] = (if p = [] then r else [])"
| "replace_first p r (x # xs) =
     (if take (length p) (x # xs) = p then r @ drop (length p) (x # xs)
      else x # replace_first p r xs)"

lemma replace_char_id [js_simps]: "a \<notin> set s \<Longrightarrow> replace_char a b s = s"
  by (induction s) (auto simp: replace_char_def)

lemma replace_char_length [simp]: "length (replace_char a b s) = length s"
  by (simp add: replace_char_def)

lemma replace_char_inverse [js_simps]:
  "b \<notin> set s \<Longrightarrow> replace_char b a (replace_char a b s) = s"
  by (induction s) (auto simp: replace_char_def)

lemma replace_first_no_match [js_simps]:
  "(\<And>i. take (length p) (drop i s) \<noteq> p) \<Longrightarrow> replace_first p r s = s"
proof (induction s)
  case Nil
  from Nil.prems [of 0] show ?case by simp
next
  case (Cons x xs)
  have "take (length p) (drop 0 (x # xs)) \<noteq> p" by (rule Cons.prems)
  moreover have "\<And>i. take (length p) (drop i xs) \<noteq> p"
  proof -
    fix i
    show "take (length p) (drop i xs) \<noteq> p" using Cons.prems [of "Suc i"] by simp
  qed
  ultimately show ?case using Cons.IH by simp
qed

text \<open>The first occurrence is the one replaced: nothing before it may match.\<close>

lemma replace_first_append_match [js_simps]:
  "(\<And>i. i < length u \<Longrightarrow> take (length p) (drop i (u @ p @ v)) \<noteq> p) \<Longrightarrow>
   replace_first p r (u @ p @ v) = u @ r @ v"
proof (induction u)
  case Nil
  then show ?case by (cases p; cases v) simp_all
next
  case (Cons x xs)
  have "take (length p) (drop 0 ((x # xs) @ p @ v)) \<noteq> p" by (rule Cons.prems) simp
  moreover have "\<And>i. i < length xs \<Longrightarrow> take (length p) (drop i (xs @ p @ v)) \<noteq> p"
  proof -
    fix i
    assume "i < length xs"
    then show "take (length p) (drop i (xs @ p @ v)) \<noteq> p" using Cons.prems [of "Suc i"] by simp
  qed
  ultimately show ?case using Cons.IH by simp
qed

section \<open>Array.prototype.slice\<close>

text \<open>\<open>xs.slice(0, e)\<close>: a negative end counts from the end and is clamped at 0, a
  positive one is clamped at the length.\<close>

definition js_slice_to :: "'a list \<Rightarrow> int \<Rightarrow> 'a list" where
  "js_slice_to xs e =
     take (nat (if e < 0 then max (int (length xs) + e) 0 else min e (int (length xs)))) xs"

lemma js_slice_to_neg [js_simps]:
  "0 < m \<Longrightarrow> js_slice_to xs (- m) = take (length xs - nat m) xs"
proof -
  assume "0 < m"
  then have "nat (max (int (length xs) - m) 0) = length xs - nat m"
    by (simp add: max_def nat_diff_distrib)
  with \<open>0 < m\<close> show ?thesis by (simp add: js_slice_to_def)
qed

lemma js_slice_to_pos [js_simps]: "0 \<le> e \<Longrightarrow> js_slice_to xs e = take (nat e) xs"
  by (auto simp: js_slice_to_def min_def nat_le_iff)

section \<open>Array.prototype.sort\<close>

text \<open>
  \<open>xs.sort(cmp)\<close> (ECMAScript 23.1.3.30): a stable sort; \<open>SortCompare\<close> takes a
  comparator result \<open>NaN\<close> as \<open>+0\<close>, so the comparator here returns an \<open>int\<close>.
  For a consistent comparator every stable sort gives the same result, so any stable
  algorithm is a faithful model; insertion sort, which keeps equal elements in their
  original order, is the one used. For an inconsistent comparator the ECMAScript order
  is implementation-defined, and no theorem below depends on it.
\<close>

fun ins_by :: "('a \<Rightarrow> 'a \<Rightarrow> int) \<Rightarrow> 'a \<Rightarrow> 'a list \<Rightarrow> 'a list" where
  "ins_by cmp x [] = [x]"
| "ins_by cmp x (y # ys) = (if 0 < cmp y x then x # y # ys else y # ins_by cmp x ys)"

definition js_sort_by :: "('a \<Rightarrow> 'a \<Rightarrow> int) \<Rightarrow> 'a list \<Rightarrow> 'a list" where
  "js_sort_by cmp xs = foldl (\<lambda>acc x. ins_by cmp x acc) [] xs"

lemma mset_ins_by [simp]: "mset (ins_by cmp x ys) = add_mset x (mset ys)"
  by (induction ys) auto

lemma set_ins_by [simp]: "set (ins_by cmp x ys) = insert x (set ys)"
  by (induction ys) auto

lemma mset_foldl_ins_by:
  "mset (foldl (\<lambda>acc x. ins_by cmp x acc) acc xs) = mset acc + mset xs"
  by (induction xs arbitrary: acc) auto

lemma mset_js_sort_by [simp]: "mset (js_sort_by cmp xs) = mset xs"
  by (simp add: js_sort_by_def mset_foldl_ins_by)

lemma ins_by_cong:
  "(\<And>y. y \<in> set ys \<Longrightarrow> cmp y x = cmp' y x) \<Longrightarrow> ins_by cmp x ys = ins_by cmp' x ys"
  by (induction ys) auto

lemma foldl_ins_by_cong:
  "(\<And>a b. a \<in> set acc \<union> set xs \<Longrightarrow> b \<in> set xs \<Longrightarrow> cmp a b = cmp' a b) \<Longrightarrow>
   foldl (\<lambda>acc x. ins_by cmp x acc) acc xs = foldl (\<lambda>acc x. ins_by cmp' x acc) acc xs"
proof (induction xs arbitrary: acc)
  case Nil
  then show ?case by simp
next
  case (Cons x xs)
  have "ins_by cmp x acc = ins_by cmp' x acc"
    by (rule ins_by_cong) (simp add: Cons.prems)
  moreover have "foldl (\<lambda>acc x. ins_by cmp x acc) (ins_by cmp x acc) xs =
                 foldl (\<lambda>acc x. ins_by cmp' x acc) (ins_by cmp x acc) xs"
    by (rule Cons.IH) (auto intro: Cons.prems)
  ultimately show ?case by simp
qed

text \<open>A comparator that agrees with the difference of an integer key on the elements
  sorted can be replaced by that difference.\<close>

lemma js_sort_by_cong:
  "(\<And>a b. a \<in> set xs \<Longrightarrow> b \<in> set xs \<Longrightarrow> cmp a b = cmp' a b) \<Longrightarrow>
   js_sort_by cmp xs = js_sort_by cmp' xs"
  unfolding js_sort_by_def by (rule foldl_ins_by_cong) auto

lemma sorted_ins_by_key:
  "sorted (map f ys) \<Longrightarrow> sorted (map f (ins_by (\<lambda>a b. f a - f b) x ys))"
  by (induction ys) (auto simp: not_less)

lemma sorted_foldl_ins_by_key:
  "sorted (map f acc) \<Longrightarrow> sorted (map f (foldl (\<lambda>acc x. ins_by (\<lambda>a b. f a - f b) x acc) acc xs))"
  by (induction xs arbitrary: acc) (auto simp: sorted_ins_by_key)

lemma filter_ins_by_key:
  "sorted (map f ys) \<Longrightarrow>
   filter (\<lambda>z. f z = v) (ins_by (\<lambda>a b. f a - f b) x ys) =
   filter (\<lambda>z. f z = v) ys @ (if f x = v then [x] else [])"
proof (induction ys)
  case Nil
  then show ?case by simp
next
  case (Cons y ys)
  show ?case
  proof (cases "f x < f y")
    case True
    with Cons.prems have "\<forall>z \<in> set (y # ys). f x < f z" by auto
    then have "filter (\<lambda>z. f z = f x) (y # ys) = []" by (auto simp: filter_empty_conv)
    with True show ?thesis by auto
  next
    case False
    with Cons show ?thesis by auto
  qed
qed

lemma filter_foldl_ins_by_key:
  "sorted (map f acc) \<Longrightarrow>
   filter (\<lambda>z. f z = v) (foldl (\<lambda>acc x. ins_by (\<lambda>a b. f a - f b) x acc) acc xs) =
   filter (\<lambda>z. f z = v) acc @ filter (\<lambda>z. f z = v) xs"
  by (induction xs arbitrary: acc) (auto simp: filter_ins_by_key sorted_ins_by_key)

text \<open>Sorting by the difference of an integer key is the library's stable \<open>sort_key\<close>.\<close>

theorem js_sort_by_key:
  fixes f :: "'a \<Rightarrow> int"
  shows "js_sort_by (\<lambda>a b. f a - f b) xs = sort_key f xs"
proof (rule properties_for_sort_key [symmetric])
  show "mset (js_sort_by (\<lambda>a b. f a - f b) xs) = mset xs" by simp
  show "sorted (map f (js_sort_by (\<lambda>a b. f a - f b) xs))"
    unfolding js_sort_by_def by (rule sorted_foldl_ins_by_key) simp
  fix k
  have "filter (\<lambda>z. f z = f k) (js_sort_by (\<lambda>a b. f a - f b) xs) = filter (\<lambda>z. f z = f k) xs"
    unfolding js_sort_by_def by (subst filter_foldl_ins_by_key) simp_all
  then show "filter (\<lambda>x. f k = f x) (js_sort_by (\<lambda>a b. f a - f b) xs) = filter (\<lambda>x. f k = f x) xs"
    by (simp add: eq_commute [of "f k"])
qed

lemma sort_key_map: "sort_key f (map g xs) = map g (sort_key (f \<circ> g) xs)"
proof -
  have "insort_key f (g x) (map g ys) = map g (insort_key (f \<circ> g) x ys)" for x ys
    by (induction ys) auto
  then show ?thesis by (induction xs) simp_all
qed

section \<open>parseInt\<close>

text \<open>
  \<open>parseInt(s)\<close> with no radix (ECMAScript 19.2.5): skip leading white space, read an
  optional sign, take radix 16 after a \<open>0x\<close>/\<open>0X\<close> prefix and 10 otherwise, and
  read the longest prefix of digits of that radix; no digit gives \<open>NaN\<close> (\<open>None\<close>).
  The white space recognised is the ASCII part of WhiteSpace and LineTerminator.
  \<open>-0\<close> is \<open>0\<close> here; both are falsy, which is all the script asks of them.
\<close>

definition js_space :: "char \<Rightarrow> bool" where
  "js_space c \<longleftrightarrow> c \<in> set [CHR '' '', CHR 0x09, CHR 0x0A, CHR 0x0B, CHR 0x0C, CHR 0x0D]"

definition digit_value :: "nat \<Rightarrow> char \<Rightarrow> nat option" where
  "digit_value r c =
     (let n = of_char c :: nat;
          v = (if 48 \<le> n \<and> n \<le> 57 then Some (n - 48)
               else if 97 \<le> n \<and> n \<le> 122 then Some (n - 87)
               else if 65 \<le> n \<and> n \<le> 90 then Some (n - 55) else None)
      in case v of Some d \<Rightarrow> if d < r then Some d else None | None \<Rightarrow> None)"

text \<open>The digits loop: the value read so far and the number of digits read.\<close>

fun digits_prefix :: "nat \<Rightarrow> nat \<Rightarrow> nat \<Rightarrow> string \<Rightarrow> nat \<times> nat" where
  "digits_prefix r acc n [] = (acc, n)"
| "digits_prefix r acc n (x # xs) =
     (case digit_value r x of
        None \<Rightarrow> (acc, n)
      | Some d \<Rightarrow> digits_prefix r (acc * r + d) (Suc n) xs)"

definition js_parse_int :: "string \<Rightarrow> int option" where
  "js_parse_int s =
     (let t = dropWhile js_space s;
          (sg, u) = (case t of
                       x # rest \<Rightarrow> if x = CHR ''-'' then (-1 :: int, rest)
                                   else if x = CHR ''+'' then (1, rest) else (1, t)
                     | [] \<Rightarrow> (1, t));
          (r, w) = (if take 2 u = ''0x'' \<or> take 2 u = ''0X'' then (16, drop 2 u) else (10, u));
          (v, n) = digits_prefix r 0 0 w
      in if n = 0 then None else Some (sg * int v))"

text \<open>\<open>parseInt(env.X!)\<close>: a missing value is converted to the string \<open>undefined\<close>.\<close>

definition js_parse_int_env :: "string option \<Rightarrow> int option" where
  "js_parse_int_env v = js_parse_int (js_interp v)"

section \<open>path.join and path.basename (POSIX)\<close>

text \<open>
  Node's \<open>normalizeString\<close>: the segments of a path without empty and \<open>.\<close>
  segments, a \<open>..\<close> removing the segment before it; above the start a \<open>..\<close> is
  kept for a relative path and dropped for an absolute one. The accumulator is reversed.
\<close>

fun norm_segments :: "bool \<Rightarrow> string list \<Rightarrow> string list \<Rightarrow> string list" where
  "norm_segments up acc [] = rev acc"
| "norm_segments up acc (s # ss) =
     (if s = [] \<or> s = ''.'' then norm_segments up acc ss
      else if s = ''..'' then
        (case acc of
           a # as \<Rightarrow> if a \<noteq> ''..'' then norm_segments up as ss
                     else norm_segments up (s # acc) ss
         | [] \<Rightarrow> if up then norm_segments up [s] ss else norm_segments up [] ss)
      else norm_segments up (s # acc) ss)"

definition path_normalize :: "string \<Rightarrow> string" where
  "path_normalize p =
     (if p = [] then ''.''
      else let absolute = (hd p = CHR ''/'');
               trailing = (last p = CHR ''/'');
               q = js_join ''/'' (norm_segments (\<not> absolute) [] (js_split CHR ''/'' p))
           in if q = [] then (if absolute then ''/'' else if trailing then ''./'' else ''.'')
              else (if absolute then ''/'' else []) @ q @ (if trailing then ''/'' else []))"

definition path_join :: "string \<Rightarrow> string \<Rightarrow> string" where
  "path_join a b =
     (let j = js_join ''/'' (filter (\<lambda>x. x \<noteq> []) [a, b]) in
      if j = [] then ''.'' else path_normalize j)"

definition path_basename :: "string \<Rightarrow> string" where
  "path_basename p =
     (let q = rev (dropWhile (\<lambda>c. c = CHR ''/'') (rev p))
      in rev (takeWhile (\<lambda>c. c \<noteq> CHR ''/'') (rev q)))"

text \<open>A plain segment: non-empty, no slash, not \<open>.\<close> or \<open>..\<close>.\<close>

definition plain_segment :: "string \<Rightarrow> bool" where
  "plain_segment s \<longleftrightarrow> s \<noteq> [] \<and> CHR ''/'' \<notin> set s \<and> s \<noteq> ''.'' \<and> s \<noteq> ''..''"

lemma js_split_plain:
  "CHR ''/'' \<notin> set a \<Longrightarrow> CHR ''/'' \<notin> set b \<Longrightarrow> js_split CHR ''/'' (a @ CHR ''/'' # b) = [a, b]"
proof (induction a)
  case Nil
  have "js_split CHR ''/'' b = [b]" using Nil.prems(2)
    by (induction b) auto
  then show ?case by simp
next
  case (Cons x xs)
  then show ?case by auto
qed

lemma path_join_plain [js_simps]:
  assumes "plain_segment a" and "plain_segment b"
  shows "path_join a b = a @ ''/'' @ b"
proof -
  from assms have split: "js_split CHR ''/'' (a @ CHR ''/'' # b) = [a, b]"
    by (simp add: plain_segment_def js_split_plain)
  from assms have ne: "a \<noteq> []" "b \<noteq> []" and nsl: "hd a \<noteq> CHR ''/''" "last b \<noteq> CHR ''/''"
    by (auto simp: plain_segment_def dest: hd_in_set last_in_set)
  have j: "js_join ''/'' (filter (\<lambda>x. x \<noteq> []) [a, b]) = a @ CHR ''/'' # b"
    using ne by simp
  have h: "hd (a @ CHR ''/'' # b) \<noteq> CHR ''/''" using ne nsl by simp
  have l: "last (a @ CHR ''/'' # b) \<noteq> CHR ''/''" using ne nsl by simp
  have "path_normalize (a @ CHR ''/'' # b) = a @ CHR ''/'' # b"
    unfolding path_normalize_def Let_def using h l assms by (simp add: split plain_segment_def)
  with j show ?thesis by (simp only: path_join_def Let_def) simp
qed

lemma path_basename_plain [js_simps]:
  assumes nsl: "CHR ''/'' \<notin> set b" and ne: "b \<noteq> []"
  shows "path_basename (a @ CHR ''/'' # b) = b"
proof -
  obtain y ys where rb: "rev b = y # ys"
    using ne by (cases "rev b") auto
  then have "y \<in> set b" by (metis list.set_intros(1) set_rev)
  with nsl have y: "y \<noteq> CHR ''/''" by auto
  have drop: "dropWhile (\<lambda>c. c = CHR ''/'') (rev b @ CHR ''/'' # rev a) = rev b @ CHR ''/'' # rev a"
    by (simp add: rb y)
  have take: "takeWhile (\<lambda>c. c \<noteq> CHR ''/'') (rev b @ CHR ''/'' # rev a) = rev b"
    using nsl by (subst takeWhile_append2) auto
  show ?thesis
    by (simp add: path_basename_def drop take)
qed

end
