(* ===== verification/Shell.thy ===== *)
theory Shell
  imports Js_Lib
begin

text \<open>
  The interface between the script and the outside world. \<^verbatim>\<open>exec\<close> in
  \<^verbatim>\<open>src/run.ts\<close> (lines 33--36) logs \<open>Executing <cmd>\<close> and runs the command
  string with \<open>execSync\<close>, which throws when the command exits with a non-zero
  status. The commands the script builds are values of \<open>cmd\<close>; \<open>render_cmd\<close>
  gives the exact string the script passes to the shell. What a command does to the
  backup folder is the contract of the external tool (mongodump, tar, rm, the AWS CLI),
  written in \<open>cmd_effect\<close>; whether it succeeds is decided by the environment, a
  parameter \<open>ok :: cmd \<Rightarrow> bool\<close> that every theorem quantifies over.
\<close>

section \<open>Commands\<close>

datatype dump_output = Archive_gzip string | Out_dir string

datatype cmd =
    Mongodump string "string list" dump_output string
      \<comment> \<open>credential parameters, collection filters, output, extra options\<close>
  | Tar_cvf string string
  | Aws_s3_cp string string
  | Rm_rf "string list"
  | Aws_ses_send_email string string string string
      \<comment> \<open>recipient, subject, message, sender\<close>

fun render_output :: "dump_output \<Rightarrow> string" where
  "render_output (Archive_gzip p) = ''--archive=\"'' @ p @ ''\" --gzip''"
| "render_output (Out_dir p) = ''--out=\"'' @ p @ ''\"''"

fun render_cmd :: "cmd \<Rightarrow> string" where
  "render_cmd (Mongodump creds filters out extra) =
     js_join '' '' ([''mongodump'', creds] @ filters @ [render_output out, extra])"
| "render_cmd (Tar_cvf file folder) = ''tar -cvf '' @ file @ '' '' @ folder"
| "render_cmd (Aws_s3_cp src dst) = ''aws s3 cp '' @ src @ '' '' @ dst"
| "render_cmd (Rm_rf paths) = ''rm -rf '' @ js_join '' '' paths"
| "render_cmd (Aws_ses_send_email to subject message from) =
     js_join '' '' [''aws ses send-email'',
       ''--destination ToAddresses=\"'' @ to @ ''\"'',
       ''--message Subject={Data=\"'' @ subject @ ''\",Charset=\"UTF-8\"},Body={Text={\"Data=''
         @ message @ ''\",Charset=\"UTF-8\"}}'',
       ''--from \"'' @ from @ ''\"'']"

section \<open>The world the script acts on\<close>

text \<open>
  Whether the backup folder exists, its entries (names, without the folder), the
  commands executed so far in order, and the console output. \<open>readdirSync\<close> lists
  the entries sorted by name (libuv's \<open>scandir\<close> sorts them), so their order in
  \<open>dir\<close> is immaterial; it throws \<open>ENOENT\<close> on a missing folder.
\<close>

record world =
  folder_exists :: bool
  dir :: "string list"
  ran :: "cmd list"
  console :: "string list"

definition readdir_sync :: "string \<Rightarrow> (world, string list) exc" where
  "readdir_sync folder = (\<lambda>w.
     if folder_exists w then (Inr (sort (dir w)), w)
     else (Inl (Fs_error (''ENOENT: no such file or directory, scandir '' @ CHR 0x27 # folder @ [CHR 0x27])), w))"

lemma readdir_sync_exists [exc_simps]:
  "folder_exists w \<Longrightarrow> readdir_sync folder w = (Inr (sort (dir w)), w)"
  by (simp add: readdir_sync_def)

section \<open>Effects of the external tools on the backup folder\<close>

text \<open>
  A file the script writes is named \<open>[folder, name].join('/')\<close>: it is the entry
  \<open>name\<close> of the folder when \<open>name\<close> is a single non-empty segment.
\<close>

definition created_entry :: "string \<Rightarrow> string \<Rightarrow> string option" where
  "created_entry folder p =
     (let n = Suc (length folder); e = drop n p in
      if take n p = folder @ ''/'' \<and> e \<noteq> [] \<and> CHR ''/'' \<notin> set e then Some e else None)"

definition add_entry :: "string option \<Rightarrow> string list \<Rightarrow> string list" where
  "add_entry oe d = (case oe of Some e \<Rightarrow> if e \<in> set d then d else d @ [e] | None \<Rightarrow> d)"

text \<open>
  Shell pathname expansion of an unquoted word: \<open>*\<close> matches any run of characters
  other than \<open>/\<close>, every other character matches itself (the names the script builds
  contain no \<open>?\<close> or \<open>[\<close>). An entry whose name starts with a dot is matched only
  by a last pattern component that starts with a dot.
\<close>

fun glob_match :: "string \<Rightarrow> string \<Rightarrow> bool" where
  "glob_match [] s = (s = [])"
| "glob_match (c # ps) s =
     (if c = CHR ''*'' then
        glob_match ps s \<or> (case s of [] \<Rightarrow> False | x # xs \<Rightarrow> x \<noteq> CHR ''/'' \<and> glob_match (c # ps) xs)
      else (case s of [] \<Rightarrow> False | x # xs \<Rightarrow> x = c \<and> glob_match ps xs))"

definition glob_entry :: "string \<Rightarrow> string \<Rightarrow> string \<Rightarrow> bool" where
  "glob_entry folder pat e \<longleftrightarrow>
     glob_match pat (path_join folder e) \<and>
     (e \<noteq> [] \<and> hd e = CHR ''.'' \<longrightarrow> take 1 (path_basename pat) = ''.'')"

text \<open>\<open>rm -rf p1 ... pn\<close>: every entry some pattern expands to is removed; a pattern that
  matches nothing stays a literal name, which \<open>-f\<close> ignores when it does not exist.\<close>

definition rm_matches :: "string \<Rightarrow> string list \<Rightarrow> string \<Rightarrow> bool" where
  "rm_matches folder ps e \<longleftrightarrow> (\<exists>p \<in> set ps. glob_entry folder p e)"

fun cmd_effect :: "string \<Rightarrow> cmd \<Rightarrow> string list \<Rightarrow> string list" where
  "cmd_effect folder (Mongodump _ _ (Archive_gzip p) _) d = add_entry (created_entry folder p) d"
| "cmd_effect folder (Mongodump _ _ (Out_dir p) _) d = add_entry (created_entry folder p) d"
| "cmd_effect folder (Tar_cvf file _) d = add_entry (created_entry folder file) d"
| "cmd_effect folder (Rm_rf ps) d = filter (\<lambda>e. \<not> rm_matches folder ps e) d"
| "cmd_effect folder (Aws_s3_cp _ _) d = d"
| "cmd_effect folder (Aws_ses_send_email _ _ _ _) d = d"

section \<open>exec and console.log\<close>

text \<open>
  \<open>exec(cmd)\<close>: log the command, run it; a failing command leaves the folder as it was
  and throws \<open>Command failed: <cmd>\<close>. \<open>ok\<close> is the exit status the environment
  gives each command, \<open>folder\<close> the backup folder whose entries the model follows.
\<close>

definition exec :: "(cmd \<Rightarrow> bool) \<Rightarrow> string \<Rightarrow> cmd \<Rightarrow> (world, unit) exc" where
  "exec ok folder c = (\<lambda>w.
     let w1 = w\<lparr>console := console w @ [''Executing '' @ render_cmd c], ran := ran w @ [c]\<rparr>
     in if ok c then (Inr (), w1\<lparr>dir := cmd_effect folder c (dir w1)\<rparr>)
        else (Inl (Command_failed (render_cmd c)), w1))"

definition console_log :: "string \<Rightarrow> (world, unit) exc" where
  "console_log m = modifyE (\<lambda>w. w\<lparr>console := console w @ [m]\<rparr>)"

lemma exec_apply [exc_simps]:
  "exec ok folder c w =
     (let w1 = w\<lparr>console := console w @ [''Executing '' @ render_cmd c], ran := ran w @ [c]\<rparr>
      in if ok c then (Inr (), w1\<lparr>dir := cmd_effect folder c (dir w)\<rparr>)
         else (Inl (Command_failed (render_cmd c)), w1))"
  by (simp add: exec_def Let_def)

lemma exec_ok:
  "ok c \<Longrightarrow> exec ok folder c w =
     (Inr (), w\<lparr>dir := cmd_effect folder c (dir w),
                console := console w @ [''Executing '' @ render_cmd c], ran := ran w @ [c]\<rparr>)"
  by (simp add: exec_def)

lemma exec_fail:
  "\<not> ok c \<Longrightarrow> exec ok folder c w =
     (Inl (Command_failed (render_cmd c)),
      w\<lparr>console := console w @ [''Executing '' @ render_cmd c], ran := ran w @ [c]\<rparr>)"
  by (simp add: exec_def)

lemma console_log_apply [exc_simps]:
  "console_log m w = (Inr (), w\<lparr>console := console w @ [m]\<rparr>)"
  by (simp add: console_log_def modifyE_apply)

text \<open>Every executed command is recorded, whether it succeeds or not.\<close>

lemma exec_ran: "exec ok folder c w = (r, w') \<Longrightarrow> ran w' = ran w @ [c]"
  by (auto simp: exec_def Let_def split: if_splits)

lemma ran_snd_exec [simp]: "ran (snd (exec ok folder c w)) = ran w @ [c]"
  by (simp add: exec_def Let_def)

lemma exec_dir: "exec ok folder c w = (r, w') \<Longrightarrow>
    dir w' = (if ok c then cmd_effect folder c (dir w) else dir w)"
  by (auto simp: exec_def Let_def split: if_splits)

section \<open>Facts about the effects\<close>

lemma created_entry_plain [simp]:
  "e \<noteq> [] \<Longrightarrow> CHR ''/'' \<notin> set e \<Longrightarrow> created_entry folder (folder @ ''/'' @ e) = Some e"
  by (simp add: created_entry_def)

lemma distinct_add_entry [simp]: "distinct d \<Longrightarrow> distinct (add_entry oe d)"
  by (simp add: add_entry_def split: option.splits)

lemma set_add_entry: "set (add_entry oe d) = set d \<union> set_option oe"
  by (auto simp: add_entry_def split: option.splits)

lemma distinct_cmd_effect [simp]: "distinct d \<Longrightarrow> distinct (cmd_effect folder c d)"
  by (induction folder c d rule: cmd_effect.induct) simp_all

lemma glob_match_literal [simp]: "CHR ''*'' \<notin> set p \<Longrightarrow> glob_match p s = (s = p)"
proof (induction p arbitrary: s)
  case Nil
  then show ?case by simp
next
  case (Cons c ps)
  then show ?case by (cases s) auto
qed

end
