(* ===== verification/Config.thy ===== *)
theory Config
  imports Shell
begin

text \<open>
  The Config Resolver: the module-level constants of \<^verbatim>\<open>src/run.ts\<close>
  (lines 5--31 and 49--61). \<open>env\<close> is \<open>Partial<EnvParams>\<close>, read once from
  \<open>process.env\<close>; \<open>datetime\<close> is the UTC reading of \<open>new Date()\<close> at start-up.
  The derived names are computed once and shared by every step of the run.
\<close>

section \<open>The environment\<close>

record env =
  MONGO_URI :: "string option"
  HOST :: "string option"
  PORT :: "string option"
  USERNAME :: "string option"
  PASSWORD :: "string option"
  DB :: "string option"
  COLLECTION :: "string option"
  EXCLUDE_COLLECTIONS :: "string option"
  BACKUP_NAME :: "string option"
  BACKUP_LOCAL_FOLDER :: "string option"
  AWS_ACCESS_KEY_ID :: "string option"
  AWS_SECRET_ACCESS_KEY :: "string option"
  AWS_DEFAULT_REGION :: "string option"
  AWS_BUCKET :: "string option"
  EMAIL_TO :: "string option"
  EMAIL_FROM :: "string option"
  EMAIL_ONLY_ON_ERROR :: "string option"
  KEEP_LOCAL_BACKUPS_COUNT :: "string option"
  KEEP_REMOTE_BACKUPS_COUNT :: "string option"
  ARCHIVE :: "string option"
  EXTRA_OPTIONS :: "string option"

definition empty_env :: env where
  "empty_env = \<lparr>MONGO_URI = None, HOST = None, PORT = None, USERNAME = None, PASSWORD = None,
     DB = None, COLLECTION = None, EXCLUDE_COLLECTIONS = None, BACKUP_NAME = None,
     BACKUP_LOCAL_FOLDER = None, AWS_ACCESS_KEY_ID = None, AWS_SECRET_ACCESS_KEY = None,
     AWS_DEFAULT_REGION = None, AWS_BUCKET = None, EMAIL_TO = None, EMAIL_FROM = None,
     EMAIL_ONLY_ON_ERROR = None, KEEP_LOCAL_BACKUPS_COUNT = None,
     KEEP_REMOTE_BACKUPS_COUNT = None, ARCHIVE = None, EXTRA_OPTIONS = None\<rparr>"

section \<open>The date suffix\<close>

text \<open>
  A \<open>Date\<close> read in UTC, as \<open>toISOString\<close> reads it. A date is valid when its
  fields are in the ranges a \<open>Date\<close> object produces.
\<close>

record datetime =
  dt_year :: int
  dt_month :: nat
  dt_day :: nat
  dt_hour :: nat
  dt_minute :: nat
  dt_second :: nat
  dt_ms :: nat

fun leap_year :: "int \<Rightarrow> bool" where
  "leap_year y \<longleftrightarrow> (4 dvd y \<and> \<not> 100 dvd y) \<or> 400 dvd y"

fun days_in_month :: "int \<Rightarrow> nat \<Rightarrow> nat" where
  "days_in_month y m =
     (if m = 2 then (if leap_year y then 29 else 28)
      else if m \<in> {4, 6, 9, 11} then 30 else 31)"

definition valid_datetime :: "datetime \<Rightarrow> bool" where
  "valid_datetime d \<longleftrightarrow>
     1 \<le> dt_month d \<and> dt_month d \<le> 12 \<and> 1 \<le> dt_day d \<and> dt_day d \<le> days_in_month (dt_year d) (dt_month d)
     \<and> dt_hour d < 24 \<and> dt_minute d < 60 \<and> dt_second d < 60 \<and> dt_ms d < 1000"

fun dec_digits :: "nat \<Rightarrow> string" where
  "dec_digits n =
     (if n < 10 then [char_of (48 + n)] else dec_digits (n div 10) @ [char_of (48 + n mod 10)])"

definition pad0 :: "nat \<Rightarrow> nat \<Rightarrow> string" where
  "pad0 w n = (let s = dec_digits n in replicate (w - length s) (CHR ''0'') @ s)"

text \<open>
  \<open>Date.prototype.toISOString\<close>: \<open>YYYY-MM-DDTHH:mm:ss.sssZ\<close>, with the
  expanded six-digit signed year outside 0..9999.
\<close>

definition iso_year :: "int \<Rightarrow> string" where
  "iso_year y =
     (if 0 \<le> y \<and> y \<le> 9999 then pad0 4 (nat y)
      else (if y < 0 then ''-'' else ''+'') @ pad0 6 (nat \<bar>y\<bar>))"

definition to_iso_string :: "datetime \<Rightarrow> string" where
  "to_iso_string d =
     iso_year (dt_year d) @ ''-'' @ pad0 2 (dt_month d) @ ''-'' @ pad0 2 (dt_day d) @ ''T'' @
     pad0 2 (dt_hour d) @ '':'' @ pad0 2 (dt_minute d) @ '':'' @ pad0 2 (dt_second d) @ ''.'' @
     pad0 3 (dt_ms d) @ ''Z''"

text \<open>
  \<open>currentDate.toISOString().replace(/\..*$/, '').replace(/:/g, '_')\<close>: the regular
  expression matches from the first dot to the end (the ISO string has no line
  terminator), and every colon becomes an underscore.
\<close>

definition current_date_sufix :: "datetime \<Rightarrow> string" where
  "current_date_sufix d =
     replace_char CHR '':'' CHR ''_'' (takeWhile (\<lambda>c. c \<noteq> CHR ''.'') (to_iso_string d))"

section \<open>Derived names and paths\<close>

record config =
  backupFolder :: string
  backupName :: string
  currentDateSufix :: string
  bakcupArchiveName :: string
  bakcupArchiveFolderPath :: string
  bakcupArchiveFilePath :: string

definition backup_folder :: "env \<Rightarrow> string" where
  "backup_folder e = js_or (BACKUP_LOCAL_FOLDER e) ''backup''"

definition backup_name :: "env \<Rightarrow> string" where
  "backup_name e =
     js_or (BACKUP_NAME e) (js_or (DB e) ''mongodump'') @
     (if js_truthy (ARCHIVE e) then ''.archive'' else [])"

definition make_config :: "env \<Rightarrow> datetime \<Rightarrow> config" where
  "make_config e d =
     (let folder = backup_folder e;
          name = backup_name e;
          sufix = current_date_sufix d;
          archive_name = js_join ''.'' [name, sufix];
          folder_path = js_join ''/'' [folder, archive_name]
      in \<lparr>backupFolder = folder, backupName = name, currentDateSufix = sufix,
          bakcupArchiveName = archive_name, bakcupArchiveFolderPath = folder_path,
          bakcupArchiveFilePath = folder_path @ ''.zip''\<rparr>)"

text \<open>
  \<open>if (!existsSync(backupFolder)) mkdirSync(backupFolder)\<close>, outside the
  \<open>try\<close> block. \<open>mkdir_err\<close> is the outcome of \<open>mkdirSync\<close> in the
  environment: \<open>None\<close> when it creates the folder, \<open>Some msg\<close> when it throws an
  error with message \<open>msg\<close> (a missing parent folder, no permission, ...); that error
  propagates past every handler.
\<close>

definition ensure_backup_folder :: "string option \<Rightarrow> string \<Rightarrow> (world, unit) exc" where
  "ensure_backup_folder mkdir_err folder = (\<lambda>w.
     if folder_exists w then (Inr (), w)
     else (case mkdir_err of
             None \<Rightarrow> (Inr (), w\<lparr>folder_exists := True, dir := []\<rparr>)
           | Some msg \<Rightarrow> (Inl (Fs_error msg), w)))"

lemmas config_defs = make_config_def backup_folder_def backup_name_def current_date_sufix_def

section \<open>Lemmas\<close>

lemma make_config_simps [simp]:
  "backupFolder (make_config e d) = backup_folder e"
  "backupName (make_config e d) = backup_name e"
  "currentDateSufix (make_config e d) = current_date_sufix d"
  "bakcupArchiveName (make_config e d) = backup_name e @ ''.'' @ current_date_sufix d"
  "bakcupArchiveFolderPath (make_config e d) =
     backup_folder e @ ''/'' @ backup_name e @ ''.'' @ current_date_sufix d"
  "bakcupArchiveFilePath (make_config e d) =
     backup_folder e @ ''/'' @ backup_name e @ ''.'' @ current_date_sufix d @ ''.zip''"
  by (simp_all add: make_config_def Let_def)

lemma dec_digits_not_Nil [simp]: "dec_digits n \<noteq> []"
  by (subst dec_digits.simps) simp

lemma dec_digits_digits: "set (dec_digits n) \<subseteq> {CHR ''0''..CHR ''9''}"
proof (induction n rule: dec_digits.induct)
  case (1 n)
  have "of_char (char_of (48 + n mod 10) :: char) = (48 + n mod 10 :: nat)"
    by (simp add: of_char_of)
  then have "char_of (48 + n mod 10) \<in> {CHR ''0''..CHR ''9''}"
    by (simp add: less_eq_char_def)
  then show ?case
    using 1 by (subst dec_digits.simps) (auto simp: less_eq_char_def)
qed

declare dec_digits.simps [simp del]

end
