(* ===== verification/Dump.thy ===== *)
theory Dump
  imports Config
begin

text \<open>
  The Dump Executor and the Archiver: \<open>getCredParams\<close> and \<open>backupMongo\<close> of
  \<^verbatim>\<open>src/run.ts\<close> (lines 92--122). \<open>backup_mongo\<close> runs mongodump once and, when
  archive mode is off, tar on the dump folder; a failing mongodump throws before tar runs.
\<close>

section \<open>The mongodump command\<close>

definition get_cred_params :: "env \<Rightarrow> string" where
  "get_cred_params e =
     (if js_truthy (MONGO_URI e) then ''--uri \"'' @ js_interp (MONGO_URI e) @ ''\"''
      else js_join '' ''
        ([''--host '' @ js_interp (HOST e)] @
         (if js_truthy (PORT e) then [''--port '' @ js_interp (PORT e)] else []) @
         [''--db '' @ js_interp (DB e),
          ''--username '' @ js_interp (USERNAME e),
          ''--password '' @ js_interp (PASSWORD e)]))"

definition exclude_collections :: "env \<Rightarrow> string list" where
  "exclude_collections e = filter (\<lambda>c. c \<noteq> []) (js_split CHR '','' (js_or (EXCLUDE_COLLECTIONS e) []))"

definition collection_filters :: "env \<Rightarrow> string list" where
  "collection_filters e =
     (if js_truthy (COLLECTION e) then [''--collection '' @ js_interp (COLLECTION e)] else []) @
     map (\<lambda>c. ''--excludeCollection '' @ c) (exclude_collections e)"

definition dump_target :: "env \<Rightarrow> config \<Rightarrow> dump_output" where
  "dump_target e cfg =
     (if js_truthy (ARCHIVE e) then Archive_gzip (bakcupArchiveFilePath cfg)
      else Out_dir (bakcupArchiveFolderPath cfg))"

definition mongo_cmd :: "env \<Rightarrow> config \<Rightarrow> cmd" where
  "mongo_cmd e cfg =
     Mongodump (get_cred_params e) (collection_filters e) (dump_target e cfg)
       (js_or (EXTRA_OPTIONS e) [])"

definition tar_cmd :: "config \<Rightarrow> cmd" where
  "tar_cmd cfg = Tar_cvf (bakcupArchiveFilePath cfg) (bakcupArchiveFolderPath cfg)"

section \<open>backupMongo\<close>

definition backup_mongo :: "(cmd \<Rightarrow> bool) \<Rightarrow> env \<Rightarrow> config \<Rightarrow> (world, unit) exc" where
  "backup_mongo ok e cfg =
     thenE (exec ok (backupFolder cfg) (mongo_cmd e cfg))
       (if \<not> js_truthy (ARCHIVE e) then exec ok (backupFolder cfg) (tar_cmd cfg) else skipE)"

section \<open>Lemmas\<close>

lemma concat_js_split: "concat (js_split c s) = filter (\<lambda>x. x \<noteq> c) s"
proof (induction s)
  case Nil
  then show ?case by simp
next
  case (Cons x xs)
  then show ?case by (cases "js_split c xs") auto
qed

lemma backup_mongo_archive:
  "js_truthy (ARCHIVE e) \<Longrightarrow>
   backup_mongo ok e cfg = exec ok (backupFolder cfg) (mongo_cmd e cfg)"
  by (simp add: backup_mongo_def)

lemma backup_mongo_dir:
  "\<not> js_truthy (ARCHIVE e) \<Longrightarrow>
   backup_mongo ok e cfg =
     thenE (exec ok (backupFolder cfg) (mongo_cmd e cfg)) (exec ok (backupFolder cfg) (tar_cmd cfg))"
  by (simp add: backup_mongo_def)

lemma backup_mongo_folder_exists:
  "backup_mongo ok e cfg w = (r, w') \<Longrightarrow> folder_exists w' = folder_exists w"
  by (auto simp: backup_mongo_def exc_simps Let_def split: if_splits prod.splits sum.splits)

text \<open>
  C6. Archive mode selects exactly one of the two dump forms, and the mongodump command
  that runs carries it: with \<open>ARCHIVE\<close> set, mongodump streams a gzip archive to
  \<open>bakcupArchiveFilePath\<close> (\<open>--archive="..." --gzip\<close>) and nothing else runs;
  without it, mongodump writes the dump folder \<open>bakcupArchiveFolderPath\<close>
  (\<open>--out="..."\<close>) and, only when that succeeded, tar packs that folder into
  \<open>bakcupArchiveFilePath\<close>. The other arguments are the credentials, the collection
  filters and \<open>EXTRA_OPTIONS\<close>, in the source's order.
\<close>

theorem backup_mongo_one_output_mode:
  "ran (snd (backup_mongo ok e cfg w)) =
     ran w @
     (if js_truthy (ARCHIVE e) then
        [Mongodump (get_cred_params e) (collection_filters e) (Archive_gzip (bakcupArchiveFilePath cfg))
           (js_or (EXTRA_OPTIONS e) [])]
      else
        Mongodump (get_cred_params e) (collection_filters e) (Out_dir (bakcupArchiveFolderPath cfg))
          (js_or (EXTRA_OPTIONS e) []) #
        (if ok (Mongodump (get_cred_params e) (collection_filters e) (Out_dir (bakcupArchiveFolderPath cfg))
                  (js_or (EXTRA_OPTIONS e) []))
         then [Tar_cvf (bakcupArchiveFilePath cfg) (bakcupArchiveFolderPath cfg)] else []))"
proof -
  let ?m = "mongo_cmd e cfg"
  have m: "?m = Mongodump (get_cred_params e) (collection_filters e)
      (if js_truthy (ARCHIVE e) then Archive_gzip (bakcupArchiveFilePath cfg)
       else Out_dir (bakcupArchiveFolderPath cfg)) (js_or (EXTRA_OPTIONS e) [])"
    by (simp add: mongo_cmd_def dump_target_def)
  have "ran (snd (backup_mongo ok e cfg w)) =
      ran w @ ?m # (if \<not> js_truthy (ARCHIVE e) \<and> ok ?m then [tar_cmd cfg] else [])"
    by (cases "ok ?m") (simp_all add: backup_mongo_def thenE_apply exec_ok exec_fail skipE_apply)
  then show ?thesis by (simp add: m tar_cmd_def)
qed

text \<open>
  C7. The credential modes exclude each other: with a connection URI the dump command
  carries \<open>--uri "<uri>"\<close> as its only credential argument and does not depend on
  the host, port, user name or password settings at all.
\<close>

theorem uri_excludes_discrete_credentials:
  assumes "js_truthy (MONGO_URI e)"
  shows "get_cred_params e = ''--uri \"'' @ the (MONGO_URI e) @ ''\"'' \<and>
         mongo_cmd (e\<lparr>HOST := h, PORT := p, USERNAME := u, PASSWORD := pw\<rparr>) cfg = mongo_cmd e cfg"
  using assms
  by (auto simp: get_cred_params_def mongo_cmd_def collection_filters_def exclude_collections_def
      dump_target_def js_truthy_def split: option.splits)

theorem uri_excludes_discrete_credentials_witness:
  "js_truthy (MONGO_URI (empty_env\<lparr>MONGO_URI := Some ''mongodb://h/db''\<rparr>)) \<and>
   get_cred_params (empty_env\<lparr>MONGO_URI := Some ''mongodb://h/db''\<rparr>) = ''--uri \"mongodb://h/db\"'' \<and>
   mongo_cmd (empty_env\<lparr>MONGO_URI := Some ''mongodb://h/db'', HOST := Some ''x'', PORT := Some ''1'',
      USERNAME := Some ''u'', PASSWORD := Some ''p''\<rparr>) (make_config empty_env \<lparr>dt_year = 2020, dt_month = 1,
      dt_day = 1, dt_hour = 0, dt_minute = 0, dt_second = 0, dt_ms = 0\<rparr>) =
   mongo_cmd (empty_env\<lparr>MONGO_URI := Some ''mongodb://h/db''\<rparr>) (make_config empty_env \<lparr>dt_year = 2020, dt_month = 1,
      dt_day = 1, dt_hour = 0, dt_minute = 0, dt_second = 0, dt_ms = 0\<rparr>)"
proof -
  have h: "js_truthy (MONGO_URI (empty_env\<lparr>MONGO_URI := Some ''mongodb://h/db''\<rparr>))" by simp
  show ?thesis
    using h uri_excludes_discrete_credentials [OF h, where h = "Some ''x''" and p = "Some ''1''"
      and u = "Some ''u''" and pw = "Some ''p''"]
    by simp
qed

end
