(* ===== verification/Upload.thy ===== *)
theory Upload
  imports Config
begin

text \<open>
  The Uploader: \<open>uploadBackupToS3\<close> of \<^verbatim>\<open>src/run.ts\<close> (lines 63--71). Without
  \<open>AWS_BUCKET\<close> it only logs; otherwise it copies the archive to
  \<open>s3://<bucket>/<basename of the archive path>\<close> with the AWS CLI.
\<close>

definition s3_path :: "env \<Rightarrow> string \<Rightarrow> string" where
  "s3_path e p = ''s3://'' @ js_interp (AWS_BUCKET e) @ ''/'' @ path_basename p"

definition upload_backup_to_s3 :: "(cmd \<Rightarrow> bool) \<Rightarrow> env \<Rightarrow> string \<Rightarrow> string \<Rightarrow> (world, unit) exc" where
  "upload_backup_to_s3 ok e folder p =
     (if \<not> js_truthy (AWS_BUCKET e) then console_log ''No AWS_BUCKET set.''
      else exec ok folder (Aws_s3_cp p (s3_path e p)))"

lemma upload_dir:
  "upload_backup_to_s3 ok e folder p w = (r, w') \<Longrightarrow> dir w' = dir w \<and> folder_exists w' = folder_exists w"
  by (auto simp: upload_backup_to_s3_def exc_simps Let_def split: if_splits prod.splits sum.splits)

lemma upload_result:
  "upload_backup_to_s3 ok e folder p w = (r, w') \<Longrightarrow>
   r = (if js_truthy (AWS_BUCKET e) \<and> \<not> ok (Aws_s3_cp p (s3_path e p))
        then Inl (Command_failed (render_cmd (Aws_s3_cp p (s3_path e p)))) else Inr ())"
  by (auto simp: upload_backup_to_s3_def exc_simps Let_def split: if_splits prod.splits sum.splits)

text \<open>
  C8. For an archive path \<open>dir/file\<close> whose last component \<open>file\<close> has no slash,
  the upload runs exactly one command when \<open>AWS_BUCKET\<close> is set, the shell line
  \<open>aws s3 cp dir/file s3://<bucket>/file\<close>: the object key is the file name alone, not
  the local path. Without a bucket it runs no command and only logs
  \<open>No AWS_BUCKET set.\<close>, which is not an error.
\<close>

theorem upload_only_with_bucket:
  assumes "CHR ''/'' \<notin> set f" and "f \<noteq> []"
  shows "ran (snd (upload_backup_to_s3 ok e folder (d @ CHR ''/'' # f) w)) =
           ran w @ (if js_truthy (AWS_BUCKET e)
                    then [Aws_s3_cp (d @ CHR ''/'' # f) (''s3://'' @ js_interp (AWS_BUCKET e) @ ''/'' @ f)]
                    else []) \<and>
         render_cmd (Aws_s3_cp (d @ CHR ''/'' # f) (s3_path e (d @ CHR ''/'' # f))) =
           ''aws s3 cp '' @ d @ CHR ''/'' # f @ '' s3://'' @ js_interp (AWS_BUCKET e) @ ''/'' @ f \<and>
         (js_truthy (AWS_BUCKET e) \<or>
          upload_backup_to_s3 ok e folder (d @ CHR ''/'' # f) w =
            (Inr (), w\<lparr>console := console w @ [''No AWS_BUCKET set.'']\<rparr>))"
proof -
  have b: "s3_path e (d @ CHR ''/'' # f) = ''s3://'' @ js_interp (AWS_BUCKET e) @ ''/'' @ f"
    using assms by (simp add: s3_path_def path_basename_plain)
  then show ?thesis
    by (auto simp: upload_backup_to_s3_def console_log_apply)
qed

theorem upload_only_with_bucket_witness:
  "CHR ''/'' \<notin> set ''x.zip'' \<and> ''x.zip'' \<noteq> [] \<and>
   ran (snd (upload_backup_to_s3 (\<lambda>_. True) (empty_env\<lparr>AWS_BUCKET := Some ''bkt''\<rparr>) ''backup'' ''backup/x.zip''
      \<lparr>folder_exists = True, dir = [], ran = [], console = []\<rparr>)) =
     [Aws_s3_cp ''backup/x.zip'' ''s3://bkt/x.zip''] \<and>
   render_cmd (Aws_s3_cp ''backup/x.zip'' (s3_path (empty_env\<lparr>AWS_BUCKET := Some ''bkt''\<rparr>) ''backup/x.zip'')) =
     ''aws s3 cp backup/x.zip s3://bkt/x.zip''"
proof -
  have h1: "CHR ''/'' \<notin> set ''x.zip''" and h2: "''x.zip'' \<noteq> []" by simp_all
  show ?thesis
    using upload_only_with_bucket [OF h1 h2, of "\<lambda>_. True" "empty_env\<lparr>AWS_BUCKET := Some ''bkt''\<rparr>"
        "''backup''" "''backup''" "\<lparr>folder_exists = True, dir = [], ran = [], console = []\<rparr>"]
    by simp
qed

end
