(* ===== verification/Notify.thy ===== *)
theory Notify
  imports Config
begin

text \<open>
  The Notifier: \<open>sendEmail\<close> of \<^verbatim>\<open>src/run.ts\<close> (lines 38--47). It does nothing
  unless both \<open>EMAIL_FROM\<close> and \<open>EMAIL_TO\<close> are set, and otherwise runs
  \<open>aws ses send-email\<close> once; a failing send throws to its caller.
\<close>

definition email_configured :: "env \<Rightarrow> bool" where
  "email_configured e \<longleftrightarrow> js_truthy (EMAIL_FROM e) \<and> js_truthy (EMAIL_TO e)"

definition email_cmd :: "env \<Rightarrow> string \<Rightarrow> string \<Rightarrow> cmd" where
  "email_cmd e subject message =
     Aws_ses_send_email (js_interp (EMAIL_TO e)) subject message (js_interp (EMAIL_FROM e))"

definition send_email :: "(cmd \<Rightarrow> bool) \<Rightarrow> env \<Rightarrow> string \<Rightarrow> string \<Rightarrow> string \<Rightarrow> (world, unit) exc" where
  "send_email ok e folder subject message =
     (if \<not> js_truthy (EMAIL_FROM e) \<or> \<not> js_truthy (EMAIL_TO e) then skipE
      else exec ok folder (email_cmd e subject message))"

lemma send_email_ran:
  "send_email ok e folder subject message w = (r, w') \<Longrightarrow>
   ran w' = ran w @ (if email_configured e then [email_cmd e subject message] else [])"
  by (auto simp: send_email_def email_configured_def exc_simps Let_def split: if_splits prod.splits sum.splits)

lemma send_email_dir:
  "send_email ok e folder subject message w = (r, w') \<Longrightarrow>
   dir w' = dir w \<and> folder_exists w' = folder_exists w"
  by (auto simp: send_email_def email_cmd_def exc_simps Let_def split: if_splits prod.splits sum.splits)

lemma send_email_result:
  "send_email ok e folder subject message w = (r, w') \<Longrightarrow>
   r = (if email_configured e \<and> \<not> ok (email_cmd e subject message)
        then Inl (Command_failed (render_cmd (email_cmd e subject message))) else Inr ())"
  by (auto simp: send_email_def email_configured_def exc_simps Let_def split: if_splits prod.splits sum.splits)

end
