(* ===== verification/Retention.thy ===== *)
theory Retention
  imports Config
begin

text \<open>
  The Retention Pruner: \<open>removeOldLocalBackups\<close> of \<^verbatim>\<open>src/run.ts\<close>
  (lines 73--90). It lists the folder, keeps the names that match \<open>/.zip$/\<close>, and when
  there are at least \<open>max\<close> of them, reads a date out of each name, sorts them by date
  and removes the oldest \<open>count - max\<close> with one \<open>rm -rf\<close> of glob patterns.
  \<open>new Date(s).getTime()\<close> is the parameter \<open>date_ms\<close> (\<open>None\<close> for an Invalid
  Date): the theorems below hold for any date parser, and the theory \<open>Dates\<close>
  supplies the one of the runtime on the names this script writes.
\<close>

section \<open>Listing and dating the archives\<close>

text \<open>\<open>f.match(/.zip$/)\<close>: the name ends with \<open>zip\<close> after one more character
  that is not a line terminator. The dot is not escaped.\<close>

definition zip_listing :: "string \<Rightarrow> bool" where
  "zip_listing f \<longleftrightarrow>
     4 \<le> length f \<and> drop (length f - 3) f = ''zip'' \<and> f ! (length f - 4) \<notin> {CHR 0x0A, CHR 0x0D}"

definition date_char :: "char \<Rightarrow> bool" where
  "date_char c \<longleftrightarrow> (CHR ''0'' \<le> c \<and> c \<le> CHR ''9'') \<or> c = CHR ''_'' \<or> c = CHR ''T'' \<or> c = CHR ''-''"

text \<open>
  \<open>name.match(/([\d_T-]*)\.zip$/)\<close>: \<open>null\<close> unless the name ends with \<open>.zip\<close>;
  otherwise the leftmost match, whose group is the longest run of \<open>[\d_T-]\<close> just
  before the final \<open>.zip\<close> (possibly empty).
\<close>

definition archive_date_group :: "string \<Rightarrow> string option" where
  "archive_date_group name =
     (if 4 \<le> length name \<and> drop (length name - 4) name = ''.zip''
      then Some (rev (takeWhile date_char (rev (take (length name - 4) name))))
      else None)"

definition null_index_message :: string where
  "null_index_message = ''Cannot read properties of null (reading '' @ CHR 0x27 # ''1'' @ CHR 0x27 # '')''"

definition get_date_from_archive_name :: "(string \<Rightarrow> int option) \<Rightarrow> string \<Rightarrow> js_error + int option" where
  "get_date_from_archive_name date_ms name =
     (case archive_date_group name of
        None \<Rightarrow> Inl (Type_error null_index_message)
      | Some g \<Rightarrow> Inr (date_ms (replace_char CHR ''_'' CHR '':'' g)))"

text \<open>\<open>backupArchives.map(name => ({ name, date }))\<close>: stops at the first name that throws.\<close>

fun dated_archives :: "(string \<Rightarrow> int option) \<Rightarrow> string list \<Rightarrow> js_error + (string \<times> int option) list" where
  "dated_archives date_ms [] = Inr []"
| "dated_archives date_ms (n # ns) =
     (case get_date_from_archive_name date_ms n of
        Inl err \<Rightarrow> Inl err
      | Inr d \<Rightarrow> (case dated_archives date_ms ns of Inl err \<Rightarrow> Inl err | Inr r \<Rightarrow> Inr ((n, d) # r)))"

section \<open>Sorting and slicing\<close>

text \<open>\<open>(a, b) => a.date.getTime() - b.date.getTime()\<close>; a \<open>NaN\<close> result counts as 0.\<close>

definition sort_compare :: "int option \<Rightarrow> int option \<Rightarrow> int" where
  "sort_compare a b = (case (a, b) of (Some x, Some y) \<Rightarrow> x - y | _ \<Rightarrow> 0)"

definition sorted_backups :: "(string \<times> int option) list \<Rightarrow> string list" where
  "sorted_backups named = map fst (js_sort_by (\<lambda>a b. sort_compare (snd a) (snd b)) named)"

text \<open>\<open>parseInt(env.KEEP_LOCAL_BACKUPS_COUNT!) || 10\<close>: \<open>NaN\<close> and \<open>0\<close> give 10.\<close>

definition max_backups_count :: "env \<Rightarrow> int" where
  "max_backups_count e =
     (case js_parse_int_env (KEEP_LOCAL_BACKUPS_COUNT e) of
        None \<Rightarrow> 10
      | Some n \<Rightarrow> if n = 0 then 10 else n)"

definition old_backups :: "env \<Rightarrow> (string \<times> int option) list \<Rightarrow> string list" where
  "old_backups e named = js_slice_to (sorted_backups named) (- max_backups_count e)"

text \<open>\<open>join(backupFolder, fileName.replace(/\.zip/, '*'))\<close>: the first \<open>.zip\<close>
  becomes a glob star.\<close>

definition removal_path :: "string \<Rightarrow> string \<Rightarrow> string" where
  "removal_path folder f = path_join folder (replace_first ''.zip'' ''*'' f)"

text \<open>\<open>console.log('Removing old backups', xs)\<close>, with \<open>util.inspect\<close> of a
  short array of strings.\<close>

definition inspect_strings :: "string list \<Rightarrow> string" where
  "inspect_strings xs =
     (if xs = [] then ''[]''
      else ''[ '' @ js_join '', '' (map (\<lambda>x. CHR 0x27 # x @ [CHR 0x27]) xs) @ '' ]'')"

section \<open>removeOldLocalBackups\<close>

definition remove_old_local_backups ::
  "(cmd \<Rightarrow> bool) \<Rightarrow> (string \<Rightarrow> int option) \<Rightarrow> env \<Rightarrow> string \<Rightarrow> (world, unit) exc" where
  "remove_old_local_backups ok date_ms e folder =
     bindE (readdir_sync folder) (\<lambda>entries.
       let backupArchives = filter zip_listing entries in
       if max_backups_count e \<le> int (length backupArchives) then
         (case dated_archives date_ms backupArchives of
            Inl err \<Rightarrow> throwE err
          | Inr named \<Rightarrow>
              let old = old_backups e named in
              thenE (console_log (''Removing old backups '' @ inspect_strings old))
                (exec ok folder (Rm_rf (map (removal_path folder) old))))
       else skipE)"

text \<open>The archives of a world, as the pruner lists them; an archive is datable when its
  name yields a valid date, and then \<open>archive_time\<close> is that date.\<close>

definition local_archives :: "world \<Rightarrow> string list" where
  "local_archives w = filter zip_listing (sort (dir w))"

definition datable :: "(string \<Rightarrow> int option) \<Rightarrow> string \<Rightarrow> bool" where
  "datable date_ms n \<longleftrightarrow> (case get_date_from_archive_name date_ms n of Inr (Some _) \<Rightarrow> True | _ \<Rightarrow> False)"

definition archive_time :: "(string \<Rightarrow> int option) \<Rightarrow> string \<Rightarrow> int" where
  "archive_time date_ms n = (case get_date_from_archive_name date_ms n of Inr (Some t) \<Rightarrow> t | _ \<Rightarrow> 0)"

section \<open>Lemmas\<close>

lemma datable_get_date:
  "datable date_ms n \<Longrightarrow> get_date_from_archive_name date_ms n = Inr (Some (archive_time date_ms n))"
  by (auto simp: datable_def archive_time_def split: sum.splits option.splits)

lemma dated_archives_datable:
  "\<forall>n \<in> set ns. datable date_ms n \<Longrightarrow>
   dated_archives date_ms ns = Inr (map (\<lambda>n. (n, Some (archive_time date_ms n))) ns)"
  by (induction ns) (simp_all add: datable_get_date)

lemma sorted_backups_dated:
  "sorted_backups (map (\<lambda>n. (n, Some (t n))) ns) = sort_key t ns"
proof -
  let ?named = "map (\<lambda>n. (n, Some (t n))) ns"
  have "js_sort_by (\<lambda>a b. sort_compare (snd a) (snd b)) ?named =
        js_sort_by (\<lambda>a b. the (snd a) - the (snd b)) ?named"
    by (rule js_sort_by_cong) (auto simp: sort_compare_def)
  also have "\<dots> = sort_key (\<lambda>x. the (snd x)) ?named"
    by (rule js_sort_by_key)
  finally show ?thesis
    by (simp add: sorted_backups_def sort_key_map comp_def)
qed

lemma prune_dated_eq:
  assumes "folder_exists w"
    and "\<forall>n \<in> set (local_archives w). datable date_ms n"
    and "0 < max_backups_count e"
  shows "remove_old_local_backups ok date_ms e folder w =
     (let arch = local_archives w; m = nat (max_backups_count e) in
      if length arch < m then (Inr (), w)
      else let old = take (length arch - m) (sort_key (archive_time date_ms) arch) in
        exec ok folder (Rm_rf (map (removal_path folder) old))
          (w\<lparr>console := console w @ [''Removing old backups '' @ inspect_strings old]\<rparr>))"
proof -
  let ?arch = "local_archives w"
  let ?m = "max_backups_count e"
  have dated: "dated_archives date_ms ?arch = Inr (map (\<lambda>n. (n, Some (archive_time date_ms n))) ?arch)"
    using assms(2) by (rule dated_archives_datable)
  have old: "old_backups e (map (\<lambda>n. (n, Some (archive_time date_ms n))) ?arch) =
             take (length ?arch - nat ?m) (sort_key (archive_time date_ms) ?arch)"
    using assms(3) by (simp add: old_backups_def sorted_backups_dated js_slice_to_neg)
  show ?thesis
    using assms(1,3) dated old
    by (auto simp: remove_old_local_backups_def local_archives_def exc_simps Let_def)
qed

lemma rm_matches_removal_paths:
  "rm_matches folder (map (removal_path folder) old) k \<longleftrightarrow>
   (\<exists>ob \<in> set old. glob_entry folder (removal_path folder ob) k)"
  by (auto simp: rm_matches_def)

lemma set_drop_sorted_key:
  "distinct xs \<Longrightarrow> set (drop j (sort_key f xs)) = set xs - set (take j (sort_key f xs))"
proof -
  assume d: "distinct xs"
  let ?L = "sort_key f xs"
  have "distinct ?L" using d by (simp add: distinct_sort)
  then have "set (take j ?L) \<inter> set (drop j ?L) = {}"
    by (metis append_take_drop_id distinct_append)
  moreover have "set (take j ?L) \<union> set (drop j ?L) = set xs"
    by (metis append_take_drop_id set_append set_sort)
  ultimately show ?thesis by blast
qed

text \<open>
  C1. When every listed archive carries a valid date, the retention count \<open>max\<close> is
  positive, \<open>rm\<close> succeeds, and the removal pattern of each archive matches, among the
  archives, only that archive: the pruner runs no command and removes nothing when fewer
  than \<open>max\<close> archives exist; otherwise it runs one \<open>rm -rf\<close> and the archives left
  are exactly the newest \<open>max\<close> by date (the oldest \<open>count - max\<close> are gone).
\<close>

theorem remove_old_local_backups_prunes:
  assumes "folder_exists w" and "distinct (dir w)"
    and "\<forall>n \<in> set (local_archives w). datable date_ms n"
    and "0 < max_backups_count e"
    and "\<forall>ps. ok (Rm_rf ps)"
    and "\<forall>ob \<in> set (local_archives w). \<forall>k \<in> set (local_archives w).
           glob_entry folder (removal_path folder ob) k \<longleftrightarrow> k = ob"
  shows "set (local_archives (snd (remove_old_local_backups ok date_ms e folder w))) =
           (if length (local_archives w) < nat (max_backups_count e) then set (local_archives w)
            else set (drop (length (local_archives w) - nat (max_backups_count e))
                        (sort_key (archive_time date_ms) (local_archives w)))) \<and>
         ran (snd (remove_old_local_backups ok date_ms e folder w)) =
           ran w @ (if length (local_archives w) < nat (max_backups_count e) then []
                    else [Rm_rf (map (removal_path folder)
                            (take (length (local_archives w) - nat (max_backups_count e))
                              (sort_key (archive_time date_ms) (local_archives w))))])"
proof -
  let ?arch = "local_archives w"
  let ?m = "nat (max_backups_count e)"
  let ?old = "take (length ?arch - ?m) (sort_key (archive_time date_ms) ?arch)"
  let ?ps = "map (removal_path folder) ?old"
  note eq = prune_dated_eq [OF assms(1,3,4), of ok folder]
  show ?thesis
  proof (cases "length ?arch < ?m")
    case True
    with eq show ?thesis by (simp add: Let_def)
  next
    case False
    let ?w1 = "w\<lparr>console := console w @ [''Removing old backups '' @ inspect_strings ?old]\<rparr>"
    have run: "remove_old_local_backups ok date_ms e folder w =
        exec ok folder (Rm_rf ?ps) ?w1"
      using eq False by (simp add: Let_def)
    have w': "snd (exec ok folder (Rm_rf ?ps) ?w1) =
        (w\<lparr>dir := filter (\<lambda>x. \<not> rm_matches folder ?ps x) (dir w)\<rparr>)\<lparr>console := console ?w1 @ [''Executing '' @ render_cmd (Rm_rf ?ps)], ran := ran w @ [Rm_rf ?ps]\<rparr>"
      using assms(5) by (simp add: exec_apply Let_def)
    have old_sub: "set ?old \<subseteq> set ?arch"
      by (metis set_sort set_take_subset)
    have keep: "k \<in> set ?arch \<Longrightarrow> rm_matches folder ?ps k \<longleftrightarrow> k \<in> set ?old" for k
      using assms(6) old_sub by (auto simp: rm_matches_removal_paths)
    have arch': "set (filter (\<lambda>x. \<not> rm_matches folder ?ps x) ?arch) = set ?arch - set ?old"
      using keep by auto
    have dist: "distinct ?arch" using assms(2) by (simp add: local_archives_def distinct_sort)
    have "local_archives (snd (exec ok folder (Rm_rf ?ps) ?w1)) =
          filter (\<lambda>x. \<not> rm_matches folder ?ps x) ?arch"
      by (simp only: w') (simp add: local_archives_def filter_sort [symmetric] filter_filter conj_commute)
    then have la: "set (local_archives (snd (remove_old_local_backups ok date_ms e folder w))) =
        set (drop (length ?arch - ?m) (sort_key (archive_time date_ms) ?arch))"
      by (simp only: run arch' set_drop_sorted_key [OF dist])
    have rn: "ran (snd (remove_old_local_backups ok date_ms e folder w)) = ran w @ [Rm_rf ?ps]"
      by (simp only: run w') simp
    show ?thesis using la rn False by simp
  qed
qed

text \<open>The pruner on three dated archives with \<open>KEEP_LOCAL_BACKUPS_COUNT=2\<close>.\<close>

theorem remove_old_local_backups_prunes_witness:
  "set (local_archives (snd (remove_old_local_backups (\<lambda>_. True) (\<lambda>s. Some (int (of_char (s ! 9))))
       (empty_env\<lparr>KEEP_LOCAL_BACKUPS_COUNT := Some ''2''\<rparr>) ''backup''
       \<lparr>folder_exists = True,
        dir = [''t.2020-01-03T00_00_00.zip'', ''t.2020-01-01T00_00_00.zip'', ''t.2020-01-02T00_00_00.zip''],
        ran = [], console = []\<rparr>))) =
     {''t.2020-01-02T00_00_00.zip'', ''t.2020-01-03T00_00_00.zip''} \<and>
   ran (snd (remove_old_local_backups (\<lambda>_. True) (\<lambda>s. Some (int (of_char (s ! 9))))
       (empty_env\<lparr>KEEP_LOCAL_BACKUPS_COUNT := Some ''2''\<rparr>) ''backup''
       \<lparr>folder_exists = True,
        dir = [''t.2020-01-03T00_00_00.zip'', ''t.2020-01-01T00_00_00.zip'', ''t.2020-01-02T00_00_00.zip''],
        ran = [], console = []\<rparr>)) =
     [Rm_rf [''backup/t.2020-01-01T00_00_00*'']]"
proof -
  let ?w = "\<lparr>folder_exists = True,
       dir = [''t.2020-01-03T00_00_00.zip'', ''t.2020-01-01T00_00_00.zip'', ''t.2020-01-02T00_00_00.zip''],
       ran = [], console = []\<rparr>"
  let ?e = "empty_env\<lparr>KEEP_LOCAL_BACKUPS_COUNT := Some ''2''\<rparr>"
  let ?d = "\<lambda>s. Some (int (of_char (s ! 9)))"
  have arch: "local_archives ?w =
     [''t.2020-01-01T00_00_00.zip'', ''t.2020-01-02T00_00_00.zip'', ''t.2020-01-03T00_00_00.zip'']"
    by code_simp
  have h1: "folder_exists ?w" by simp
  have h2: "distinct (dir ?w)" by simp
  have h3: "\<forall>n \<in> set (local_archives ?w). datable ?d n"
    unfolding arch by code_simp
  have mx: "max_backups_count ?e = 2" by code_simp
  then have h4: "0 < max_backups_count ?e" by simp
  have h5: "\<forall>ps. (\<lambda>_. True) (Rm_rf ps)" by simp
  have h6: "\<forall>ob \<in> set (local_archives ?w). \<forall>k \<in> set (local_archives ?w).
      glob_entry ''backup'' (removal_path ''backup'' ob) k \<longleftrightarrow> k = ob"
    unfolding arch by code_simp
  have srt: "sort_key (archive_time ?d)
     [''t.2020-01-01T00_00_00.zip'', ''t.2020-01-02T00_00_00.zip'', ''t.2020-01-03T00_00_00.zip''] =
     [''t.2020-01-01T00_00_00.zip'', ''t.2020-01-02T00_00_00.zip'', ''t.2020-01-03T00_00_00.zip'']"
    by code_simp
  have rp: "removal_path ''backup'' ''t.2020-01-01T00_00_00.zip'' = ''backup/t.2020-01-01T00_00_00*''"
    by code_simp
  show ?thesis
    using remove_old_local_backups_prunes [OF h1 h2 h3 h4 h5 h6]
    unfolding arch mx srt by (simp add: rp)
qed

text \<open>
  C4. At the boundary \<open>count = max\<close> the pruner still lists, dates and sorts the
  archives and runs \<open>rm -rf\<close>, with no operand: no entry of the folder is removed.
\<close>

theorem prune_boundary_removes_nothing:
  assumes "folder_exists w"
    and "\<forall>n \<in> set (local_archives w). datable date_ms n"
    and "0 < max_backups_count e"
    and "int (length (local_archives w)) = max_backups_count e"
  shows "ran (snd (remove_old_local_backups ok date_ms e folder w)) = ran w @ [Rm_rf []] \<and>
         dir (snd (remove_old_local_backups ok date_ms e folder w)) = dir w \<and>
         console (snd (remove_old_local_backups ok date_ms e folder w)) =
           console w @ [''Removing old backups []'', ''Executing rm -rf '']"
proof -
  have m: "nat (max_backups_count e) = length (local_archives w)"
    using assms(4) by simp
  have "remove_old_local_backups ok date_ms e folder w =
      exec ok folder (Rm_rf []) (w\<lparr>console := console w @ [''Removing old backups '' @ inspect_strings []]\<rparr>)"
    using prune_dated_eq [OF assms(1-3), of ok folder] by (simp add: m Let_def)
  then show ?thesis
    by (simp add: exec_apply Let_def inspect_strings_def rm_matches_def)
qed

theorem prune_boundary_removes_nothing_witness:
  "folder_exists \<lparr>folder_exists = True,
       dir = [''t.2020-01-02T00_00_00.zip'', ''t.2020-01-01T00_00_00.zip''], ran = [], console = []\<rparr> \<and>
   local_archives \<lparr>folder_exists = True,
       dir = [''t.2020-01-02T00_00_00.zip'', ''t.2020-01-01T00_00_00.zip''], ran = [], console = []\<rparr> = [''t.2020-01-01T00_00_00.zip'', ''t.2020-01-02T00_00_00.zip''] \<and>
   datable (\<lambda>s. Some (int (of_char (s ! 9)))) ''t.2020-01-01T00_00_00.zip'' \<and> datable (\<lambda>s. Some (int (of_char (s ! 9)))) ''t.2020-01-02T00_00_00.zip'' \<and>
   0 < max_backups_count (empty_env\<lparr>KEEP_LOCAL_BACKUPS_COUNT := Some ''2''\<rparr>) \<and>
   int (length (local_archives \<lparr>folder_exists = True,
       dir = [''t.2020-01-02T00_00_00.zip'', ''t.2020-01-01T00_00_00.zip''], ran = [], console = []\<rparr>)) = max_backups_count (empty_env\<lparr>KEEP_LOCAL_BACKUPS_COUNT := Some ''2''\<rparr>) \<and>
   ran (snd (remove_old_local_backups (\<lambda>_. True) (\<lambda>s. Some (int (of_char (s ! 9)))) (empty_env\<lparr>KEEP_LOCAL_BACKUPS_COUNT := Some ''2''\<rparr>) ''backup'' \<lparr>folder_exists = True,
       dir = [''t.2020-01-02T00_00_00.zip'', ''t.2020-01-01T00_00_00.zip''], ran = [], console = []\<rparr>)) = [Rm_rf []] \<and>
   dir (snd (remove_old_local_backups (\<lambda>_. True) (\<lambda>s. Some (int (of_char (s ! 9)))) (empty_env\<lparr>KEEP_LOCAL_BACKUPS_COUNT := Some ''2''\<rparr>) ''backup'' \<lparr>folder_exists = True,
       dir = [''t.2020-01-02T00_00_00.zip'', ''t.2020-01-01T00_00_00.zip''], ran = [], console = []\<rparr>)) =
     [''t.2020-01-02T00_00_00.zip'', ''t.2020-01-01T00_00_00.zip'']"
proof -
  let ?w = "\<lparr>folder_exists = True,
       dir = [''t.2020-01-02T00_00_00.zip'', ''t.2020-01-01T00_00_00.zip''], ran = [], console = []\<rparr>"
  let ?e = "(empty_env\<lparr>KEEP_LOCAL_BACKUPS_COUNT := Some ''2''\<rparr>)"
  let ?d = "(\<lambda>s. Some (int (of_char (s ! 9))))"
  have h1: "folder_exists ?w" by simp
  have arch: "local_archives ?w = [''t.2020-01-01T00_00_00.zip'', ''t.2020-01-02T00_00_00.zip'']"
    by code_simp
  have d1: "datable ?d ''t.2020-01-01T00_00_00.zip''" by code_simp
  have d2: "datable ?d ''t.2020-01-02T00_00_00.zip''" by code_simp
  have h2: "\<forall>n \<in> set (local_archives ?w). datable ?d n"
    using d1 d2 by (simp add: arch)
  have h3: "0 < max_backups_count ?e" by code_simp
  have h4: "int (length (local_archives ?w)) = max_backups_count ?e"
    unfolding arch by code_simp
  show ?thesis
    using h1 arch d1 d2 h3 h4 prune_boundary_removes_nothing [OF h1 h2 h3 h4, of "\<lambda>_. True" "''backup''"]
    by simp
qed

text \<open>
  C5. The sort of the pruner, \<open>Array.prototype.sort\<close> with the comparator
  \<open>a.date.getTime() - b.date.getTime()\<close>, is the stable sort by date whenever no
  date is Invalid: ascending, equal dates in their listing order.
\<close>

theorem sorted_backups_stable_sort:
  assumes "\<forall>x \<in> set named. snd x \<noteq> None"
  shows "sorted_backups named = map fst (sort_key (\<lambda>x. the (snd x)) named)"
proof -
  have "js_sort_by (\<lambda>a b. sort_compare (snd a) (snd b)) named =
        js_sort_by (\<lambda>a b. the (snd a) - the (snd b)) named"
    by (rule js_sort_by_cong) (use assms in \<open>fastforce simp: sort_compare_def split: option.splits\<close>)
  also have "\<dots> = sort_key (\<lambda>x. the (snd x)) named"
    by (rule js_sort_by_key)
  finally show ?thesis by (simp add: sorted_backups_def)
qed

theorem sorted_backups_stable_sort_witness:
  "set (map snd [(''b'', Some (2::int)), (''a'', Some 1), (''c'', Some 2)]) = {Some 1, Some 2} \<and>
   sorted_backups [(''b'', Some 2), (''a'', Some 1), (''c'', Some 2)] = [''a'', ''b'', ''c'']"
proof -
  have h: "\<forall>x \<in> set [(''b'', Some (2::int)), (''a'', Some 1), (''c'', Some 2)]. snd x \<noteq> None" by simp
  show ?thesis using sorted_backups_stable_sort [OF h] by auto
qed

end
