(* ===== verification/Orchestrator.thy ===== *)
theory Orchestrator
  imports Dump Upload Notify Retention
begin

text \<open>
  The Orchestrator: the top level of \<^verbatim>\<open>src/run.ts\<close>. At load time the script
  derives its configuration and creates the backup folder (lines 49--61, outside any
  handler); then one \<open>try\<close> block (lines 124--138) runs \<open>backupMongo\<close>,
  \<open>uploadBackupToS3\<close>, \<open>removeOldLocalBackups\<close> and the success report in order,
  and its \<open>catch\<close> (lines 139--144) sends the failure e-mail with the error's
  message. An exception of the \<open>catch\<close> block itself is uncaught: the process exits
  with a non-zero status, which is the \<open>Inl\<close> result of \<open>run_script\<close>.
\<close>

section \<open>The success report\<close>

text \<open>\<open>mongoMessageUri\<close>: the text before the first \<open>@\<close> of the URI, or a URI built
  from the discrete connection settings.\<close>

definition mongo_message_uri :: "env \<Rightarrow> string" where
  "mongo_message_uri e =
     (if js_truthy (MONGO_URI e) then hd (js_split CHR ''@'' (js_interp (MONGO_URI e)))
      else ''mongodb://'' @ js_interp (HOST e) @
           (if js_truthy (PORT e) then '':'' @ js_interp (PORT e) else []) @
           ''/'' @ js_interp (DB e))"

definition success_message :: "env \<Rightarrow> string" where
  "success_message e = ''Backup of '' @ mongo_message_uri e @ '' completed and uploaded.''"

definition success_subject :: "config \<Rightarrow> string" where
  "success_subject cfg = ''Mongo backup ('' @ backupName cfg @ '') completed.''"

definition failure_subject :: "config \<Rightarrow> string" where
  "failure_subject cfg = ''Error occurred while mongo backup ('' @ backupName cfg @ '').''"

definition report_success :: "(cmd \<Rightarrow> bool) \<Rightarrow> env \<Rightarrow> config \<Rightarrow> (world, unit) exc" where
  "report_success ok e cfg =
     thenE
       (if \<not> js_truthy (EMAIL_ONLY_ON_ERROR e)
        then send_email ok e (backupFolder cfg) (success_subject cfg) (success_message e)
        else skipE)
       (console_log (success_message e))"

section \<open>The try block, its handler, and the whole script\<close>

definition backup_steps ::
  "(cmd \<Rightarrow> bool) \<Rightarrow> (string \<Rightarrow> int option) \<Rightarrow> env \<Rightarrow> config \<Rightarrow> (world, unit) exc" where
  "backup_steps ok date_ms e cfg =
     seqE [backup_mongo ok e cfg,
           upload_backup_to_s3 ok e (backupFolder cfg) (bakcupArchiveFilePath cfg),
           remove_old_local_backups ok date_ms e (backupFolder cfg)]"

definition backup_try ::
  "(cmd \<Rightarrow> bool) \<Rightarrow> (string \<Rightarrow> int option) \<Rightarrow> env \<Rightarrow> config \<Rightarrow> (world, unit) exc" where
  "backup_try ok date_ms e cfg =
     thenE (backup_steps ok date_ms e cfg) (report_success ok e cfg)"

definition backup_main ::
  "(cmd \<Rightarrow> bool) \<Rightarrow> (string \<Rightarrow> int option) \<Rightarrow> env \<Rightarrow> config \<Rightarrow> (world, unit) exc" where
  "backup_main ok date_ms e cfg =
     catchE (backup_try ok date_ms e cfg)
       (\<lambda>err. send_email ok e (backupFolder cfg) (failure_subject cfg) (error_message err))"

definition run_script ::
  "string option \<Rightarrow> (cmd \<Rightarrow> bool) \<Rightarrow> (string \<Rightarrow> int option) \<Rightarrow> env \<Rightarrow> datetime \<Rightarrow> (world, unit) exc" where
  "run_script mkdir_err ok date_ms e now =
     (let cfg = make_config e now in
      thenE (ensure_backup_folder mkdir_err (backupFolder cfg)) (backup_main ok date_ms e cfg))"

text \<open>The two e-mails: the success report and the failure notice for an error.\<close>

definition success_email :: "env \<Rightarrow> config \<Rightarrow> cmd" where
  "success_email e cfg = email_cmd e (success_subject cfg) (success_message e)"

definition failure_email :: "env \<Rightarrow> config \<Rightarrow> js_error \<Rightarrow> cmd" where
  "failure_email e cfg err = email_cmd e (failure_subject cfg) (error_message err)"

section \<open>Example configuration\<close>

text \<open>A run with a connection URI, archive mode, a bucket and e-mail set, at
  2020-01-02T03:04:05.006Z, in an existing empty folder; used by the witnesses.\<close>

definition example_env :: env where
  "example_env = empty_env\<lparr>MONGO_URI := Some ''mongodb://u:p@host/db'', BACKUP_NAME := Some ''test'',
     ARCHIVE := Some ''1'', AWS_BUCKET := Some ''bucket'',
     EMAIL_TO := Some ''ops@example.org'', EMAIL_FROM := Some ''backup@example.org''\<rparr>"

definition example_now :: datetime where
  "example_now = \<lparr>dt_year = 2020, dt_month = 1, dt_day = 2, dt_hour = 3, dt_minute = 4,
     dt_second = 5, dt_ms = 6\<rparr>"

definition example_config :: config where
  "example_config = make_config example_env example_now"

definition example_world :: world where
  "example_world = \<lparr>folder_exists = True, dir = [], ran = [], console = []\<rparr>"

section \<open>Lemmas\<close>

lemma backup_try_apply:
  "backup_try ok date_ms e cfg =
     thenE (backup_mongo ok e cfg)
      (thenE (upload_backup_to_s3 ok e (backupFolder cfg) (bakcupArchiveFilePath cfg))
        (thenE (remove_old_local_backups ok date_ms e (backupFolder cfg)) (report_success ok e cfg)))"
  by (simp add: backup_try_def backup_steps_def thenE_assoc)

lemma backup_main_handler:
  "backup_try ok date_ms e cfg w = (Inl err, w1) \<Longrightarrow>
   backup_main ok date_ms e cfg w = send_email ok e (backupFolder cfg) (failure_subject cfg) (error_message err) w1"
  by (simp add: backup_main_def catchE_apply)

lemma backup_main_no_error:
  "backup_try ok date_ms e cfg w = (Inr u, w1) \<Longrightarrow> backup_main ok date_ms e cfg w = (Inr u, w1)"
  by (simp add: backup_main_def catchE_apply)

lemma backup_mongo_dump_fails:
  "\<not> ok (mongo_cmd e cfg) \<Longrightarrow>
   backup_mongo ok e cfg w = (Inl (Command_failed (render_cmd (mongo_cmd e cfg))),
     w\<lparr>console := console w @ [''Executing '' @ render_cmd (mongo_cmd e cfg)], ran := ran w @ [mongo_cmd e cfg]\<rparr>)"
  by (simp add: backup_mongo_def exc_simps Let_def)

lemma failure_handler_effect:
  assumes "backup_try ok date_ms e cfg w = (Inl err, w1)"
  shows "ran (snd (backup_main ok date_ms e cfg w)) =
           ran w1 @ (if email_configured e then [failure_email e cfg err] else []) \<and>
         dir (snd (backup_main ok date_ms e cfg w)) = dir w1 \<and>
         fst (backup_main ok date_ms e cfg w) =
           (if email_configured e \<and> \<not> ok (failure_email e cfg err)
            then Inl (Command_failed (render_cmd (failure_email e cfg err))) else Inr ())"
proof -
  obtain r w' where sent:
    "send_email ok e (backupFolder cfg) (failure_subject cfg) (error_message err) w1 = (r, w')"
    by fastforce
  have main: "backup_main ok date_ms e cfg w = (r, w')"
    using backup_main_handler [OF assms] sent by simp
  show ?thesis
    using send_email_ran [OF sent] send_email_dir [OF sent] send_email_result [OF sent] main
    by (simp add: failure_email_def)
qed

text \<open>
  C9. Whatever error ends the try block, the handler adds exactly one command, the failure
  e-mail with the error's message, when e-mail is configured and none otherwise, leaves
  the backup folder unchanged, and the run ends normally unless that e-mail fails.
\<close>

theorem failure_notification_sent:
  assumes "fst (backup_try ok date_ms e cfg w) = Inl err"
  shows "ran (snd (backup_main ok date_ms e cfg w)) =
           ran (snd (backup_try ok date_ms e cfg w)) @
           (if email_configured e then [failure_email e cfg err] else []) \<and>
         dir (snd (backup_main ok date_ms e cfg w)) = dir (snd (backup_try ok date_ms e cfg w)) \<and>
         (fst (backup_main ok date_ms e cfg w) = Inr () \<longleftrightarrow>
            \<not> email_configured e \<or> ok (failure_email e cfg err))"
proof -
  obtain w1 where tr: "backup_try ok date_ms e cfg w = (Inl err, w1)"
    using assms by (cases "backup_try ok date_ms e cfg w") auto
  from failure_handler_effect [OF tr] tr show ?thesis by auto
qed

lemma report_success_effect:
  "report_success ok e cfg w = (r, w') \<Longrightarrow>
   ran w' = ran w @ (if email_configured e \<and> \<not> js_truthy (EMAIL_ONLY_ON_ERROR e) then [success_email e cfg] else []) \<and>
   r = (if email_configured e \<and> \<not> js_truthy (EMAIL_ONLY_ON_ERROR e) \<and> \<not> ok (success_email e cfg)
        then Inl (Command_failed (render_cmd (success_email e cfg))) else Inr ())"
  by (auto simp: report_success_def success_email_def send_email_def email_configured_def
      exc_simps Let_def split: if_splits prod.splits sum.splits)

lemma backup_try_steps:
  "backup_steps ok date_ms e cfg w = (Inr (), w3) \<Longrightarrow>
   backup_try ok date_ms e cfg w = report_success ok e cfg w3"
  by (simp add: backup_try_def thenE_apply)

text \<open>
  C2. When mongodump exits with a non-zero status, nothing after it runs: no tar, no
  upload, no pruning, no success report; the handler sends the failure e-mail carrying
  \<open>Command failed: <mongodump command>\<close> when e-mail is configured, and the backup
  folder is left as it was.
\<close>

theorem dump_failure_skips_rest:
  assumes "\<not> ok (mongo_cmd e cfg)"
  shows "ran (snd (backup_main ok date_ms e cfg w)) = ran w @ [mongo_cmd e cfg] @
           (if email_configured e
            then [failure_email e cfg (Command_failed (render_cmd (mongo_cmd e cfg)))] else []) \<and>
         dir (snd (backup_main ok date_ms e cfg w)) = dir w"
proof -
  let ?err = "Command_failed (render_cmd (mongo_cmd e cfg))"
  obtain w1 where tr: "backup_try ok date_ms e cfg w = (Inl ?err, w1)"
    and ran1: "ran w1 = ran w @ [mongo_cmd e cfg]" and dir1: "dir w1 = dir w"
    using assms by (simp add: backup_try_apply thenE_apply backup_mongo_dump_fails)
  from failure_handler_effect [OF tr] ran1 dir1 show ?thesis by simp
qed

text \<open>
  C3. When dump, upload and pruning complete, the run ends normally and the only command
  added after them is the success e-mail, sent exactly when e-mail is configured and
  \<open>EMAIL_ONLY_ON_ERROR\<close> is not set (and that e-mail succeeds when it is sent).
\<close>

theorem success_notification_policy:
  assumes "fst (backup_steps ok date_ms e cfg w) = Inr ()"
    and "email_configured e \<and> \<not> js_truthy (EMAIL_ONLY_ON_ERROR e) \<longrightarrow> ok (success_email e cfg)"
  shows "fst (backup_main ok date_ms e cfg w) = Inr () \<and>
         ran (snd (backup_main ok date_ms e cfg w)) =
           ran (snd (backup_steps ok date_ms e cfg w)) @
           (if email_configured e \<and> \<not> js_truthy (EMAIL_ONLY_ON_ERROR e) then [success_email e cfg] else [])"
proof -
  obtain w3 where steps: "backup_steps ok date_ms e cfg w = (Inr (), w3)"
    using assms(1) by (cases "backup_steps ok date_ms e cfg w") auto
  obtain r w' where rep: "report_success ok e cfg w3 = (r, w')" by fastforce
  from report_success_effect [OF rep] assms(2) have r: "r = Inr ()" by auto
  with rep backup_try_steps [OF steps] have "backup_main ok date_ms e cfg w = (Inr (), w')"
    by (simp add: backup_main_no_error)
  with report_success_effect [OF rep] steps show ?thesis by simp
qed

text \<open>
  C10. A failing success e-mail is caught by the same handler as a failed backup: after a
  complete backup the run sends the success e-mail and then a failure e-mail reporting
  the e-mail command itself.
\<close>

theorem success_email_failure_sends_failure_email:
  assumes "fst (backup_steps ok date_ms e cfg w) = Inr ()"
    and "email_configured e" and "\<not> js_truthy (EMAIL_ONLY_ON_ERROR e)"
    and "\<not> ok (success_email e cfg)"
  shows "ran (snd (backup_main ok date_ms e cfg w)) =
           ran (snd (backup_steps ok date_ms e cfg w)) @
           [success_email e cfg, failure_email e cfg (Command_failed (render_cmd (success_email e cfg)))]"
proof -
  obtain w3 where steps: "backup_steps ok date_ms e cfg w = (Inr (), w3)"
    using assms(1) by (cases "backup_steps ok date_ms e cfg w") auto
  obtain r w' where rep: "report_success ok e cfg w3 = (r, w')" by fastforce
  from report_success_effect [OF rep] assms(2-4)
  have r: "r = Inl (Command_failed (render_cmd (success_email e cfg)))"
    and ran': "ran w' = ran w3 @ [success_email e cfg]" by auto
  with rep backup_try_steps [OF steps]
  have tr: "backup_try ok date_ms e cfg w = (Inl (Command_failed (render_cmd (success_email e cfg))), w')"
    by simp
  from failure_handler_effect [OF tr] ran' steps assms(2) show ?thesis by simp
qed

text \<open>
  C11. When the try block fails and the failure e-mail itself fails, the exception
  escapes the handler: the whole script ends with that uncaught error (a non-zero exit).
\<close>

theorem failure_email_failure_exits_nonzero:
  assumes "folder_exists w"
    and "backup_try ok date_ms e (make_config e now) w = (Inl err, w1)"
    and "email_configured e" and "\<not> ok (failure_email e (make_config e now) err)"
  shows "fst (run_script mkdir_err ok date_ms e now w) =
           Inl (Command_failed (render_cmd (failure_email e (make_config e now) err)))"
proof -
  have "run_script mkdir_err ok date_ms e now w = backup_main ok date_ms e (make_config e now) w"
    using assms(1) by (simp add: run_script_def ensure_backup_folder_def thenE_apply Let_def)
  with failure_handler_effect [OF assms(2)] assms(3,4) show ?thesis by simp
qed

text \<open>
  C12. When the backup folder is missing and cannot be created, the script throws at load
  time, before any command runs and without notifying anyone.
\<close>

theorem mkdir_failure_runs_nothing:
  "\<not> folder_exists w \<Longrightarrow> run_script (Some msg) ok date_ms e now w = (Inl (Fs_error msg), w)"
  by (simp add: run_script_def ensure_backup_folder_def thenE_apply Let_def)


text \<open>
  C16. With a connection URI, the source named in the success message is the URI up to
  its first \<open>@\<close> (for \<open>mongodb://u:p@host/db\<close> that is \<open>mongodb://u:p\<close>, the
  example of the specification): the host and database are dropped, but the user name
  and password before the \<open>@\<close> are kept.
\<close>

theorem success_message_uri_prefix:
  assumes "MONGO_URI e = Some u" and "u \<noteq> []"
  shows "mongo_message_uri e = takeWhile (\<lambda>c. c \<noteq> CHR ''@'') u \<and>
         success_message e = ''Backup of '' @ takeWhile (\<lambda>c. c \<noteq> CHR ''@'') u @ '' completed and uploaded.''"
  using assms by (simp add: mongo_message_uri_def success_message_def js_truthy_def hd_js_split)

section \<open>Witnesses\<close>

lemma example_config_eval: "example_config = \<lparr>backupFolder = ''backup'', backupName = ''test.archive'',
   currentDateSufix = ''2020-01-02T03_04_05'', bakcupArchiveName = ''test.archive.2020-01-02T03_04_05'',
   bakcupArchiveFolderPath = ''backup/test.archive.2020-01-02T03_04_05'',
   bakcupArchiveFilePath = ''backup/test.archive.2020-01-02T03_04_05.zip''\<rparr>"
  by code_simp

theorem dump_failure_skips_rest_witness:
  "\<not> (\<lambda>c. c \<noteq> mongo_cmd example_env example_config) (mongo_cmd example_env example_config) \<and>
   ran (snd (backup_main (\<lambda>c. c \<noteq> mongo_cmd example_env example_config) (\<lambda>_. None)
      example_env example_config example_world)) =
     ran example_world @ [mongo_cmd example_env example_config] @
       (if email_configured example_env
        then [failure_email example_env example_config
                (Command_failed (render_cmd (mongo_cmd example_env example_config)))] else []) \<and>
   dir (snd (backup_main (\<lambda>c. c \<noteq> mongo_cmd example_env example_config) (\<lambda>_. None)
      example_env example_config example_world)) = dir example_world"
  using dump_failure_skips_rest [of "\<lambda>c. c \<noteq> mongo_cmd example_env example_config"
      example_env example_config "\<lambda>_. None" example_world]
  by simp

theorem success_notification_policy_witness:
  "fst (backup_steps (\<lambda>_. True) (\<lambda>_. None) example_env example_config example_world) = Inr () \<and>
   fst (backup_main (\<lambda>_. True) (\<lambda>_. None) example_env example_config example_world) = Inr () \<and>
   ran (snd (backup_main (\<lambda>_. True) (\<lambda>_. None) example_env example_config example_world)) =
     ran (snd (backup_steps (\<lambda>_. True) (\<lambda>_. None) example_env example_config example_world)) @
     (if email_configured example_env \<and> \<not> js_truthy (EMAIL_ONLY_ON_ERROR example_env)
      then [success_email example_env example_config] else [])"
proof -
  have h1: "fst (backup_steps (\<lambda>_. True) (\<lambda>_. None) example_env example_config example_world) = Inr ()"
    by (simp add: example_config_eval) code_simp
  have h2: "email_configured example_env \<and> \<not> js_truthy (EMAIL_ONLY_ON_ERROR example_env) \<longrightarrow>
            (\<lambda>_. True) (success_email example_env example_config)"
    by simp
  show ?thesis using h1 success_notification_policy [OF h1 h2] by simp
qed


theorem failure_notification_sent_witness:
  "fst (backup_try (\<lambda>c. c \<noteq> Aws_s3_cp (bakcupArchiveFilePath example_config)
          (s3_path example_env (bakcupArchiveFilePath example_config)))
        (\<lambda>_. None) example_env example_config example_world) =
     Inl (Command_failed (render_cmd (Aws_s3_cp (bakcupArchiveFilePath example_config)
          (s3_path example_env (bakcupArchiveFilePath example_config))))) \<and>
   ran (snd (backup_main (\<lambda>c. c \<noteq> Aws_s3_cp (bakcupArchiveFilePath example_config)
          (s3_path example_env (bakcupArchiveFilePath example_config)))
        (\<lambda>_. None) example_env example_config example_world)) =
     ran (snd (backup_try (\<lambda>c. c \<noteq> Aws_s3_cp (bakcupArchiveFilePath example_config)
          (s3_path example_env (bakcupArchiveFilePath example_config)))
        (\<lambda>_. None) example_env example_config example_world)) @
     [failure_email example_env example_config
        (Command_failed (render_cmd (Aws_s3_cp (bakcupArchiveFilePath example_config)
          (s3_path example_env (bakcupArchiveFilePath example_config)))))]"
proof -
  let ?c = "Aws_s3_cp (bakcupArchiveFilePath example_config) (s3_path example_env (bakcupArchiveFilePath example_config))"
  have h: "fst (backup_try (\<lambda>c. c \<noteq> ?c) (\<lambda>_. None) example_env example_config example_world) =
      Inl (Command_failed (render_cmd ?c))"
    by (simp add: example_config_eval) code_simp
  have conf: "email_configured example_env"
    by (simp add: email_configured_def example_env_def empty_env_def)
  show ?thesis using h conf failure_notification_sent [OF h] by simp
qed

theorem success_email_failure_witness:
  "fst (backup_steps (\<lambda>c. c \<noteq> success_email example_env example_config) (\<lambda>_. None)
      example_env example_config example_world) = Inr () \<and>
   email_configured example_env \<and> \<not> js_truthy (EMAIL_ONLY_ON_ERROR example_env) \<and>
   \<not> (\<lambda>c. c \<noteq> success_email example_env example_config) (success_email example_env example_config) \<and>
   ran (snd (backup_main (\<lambda>c. c \<noteq> success_email example_env example_config) (\<lambda>_. None)
      example_env example_config example_world)) =
     ran (snd (backup_steps (\<lambda>c. c \<noteq> success_email example_env example_config) (\<lambda>_. None)
      example_env example_config example_world)) @
     [success_email example_env example_config,
      failure_email example_env example_config
        (Command_failed (render_cmd (success_email example_env example_config)))]"
proof -
  let ?ok = "\<lambda>c. c \<noteq> success_email example_env example_config"
  have h1: "fst (backup_steps ?ok (\<lambda>_. None) example_env example_config example_world) = Inr ()"
    by (simp add: example_config_eval) code_simp
  have h2: "email_configured example_env"
    by (simp add: email_configured_def example_env_def empty_env_def)
  have h3: "\<not> js_truthy (EMAIL_ONLY_ON_ERROR example_env)"
    by (simp add: example_env_def empty_env_def)
  have h4: "\<not> ?ok (success_email example_env example_config)" by simp
  show ?thesis using h1 h2 h3 h4 success_email_failure_sends_failure_email [OF h1 h2 h3 h4] by simp
qed

theorem failure_email_failure_witness:
  "folder_exists example_world \<and>
   backup_try (\<lambda>c. c = tar_cmd example_config) (\<lambda>_. None) example_env (make_config example_env example_now) example_world =
     (Inl (Command_failed (render_cmd (mongo_cmd example_env example_config))),
      snd (backup_try (\<lambda>c. c = tar_cmd example_config) (\<lambda>_. None) example_env (make_config example_env example_now) example_world)) \<and>
   email_configured example_env \<and>
   \<not> (\<lambda>c. c = tar_cmd example_config)
      (failure_email example_env (make_config example_env example_now)
         (Command_failed (render_cmd (mongo_cmd example_env example_config)))) \<and>
   fst (run_script None (\<lambda>c. c = tar_cmd example_config) (\<lambda>_. None) example_env example_now example_world) =
     Inl (Command_failed (render_cmd (failure_email example_env (make_config example_env example_now)
         (Command_failed (render_cmd (mongo_cmd example_env example_config))))))"
proof -
  let ?ok = "\<lambda>c. c = tar_cmd example_config"
  let ?err = "Command_failed (render_cmd (mongo_cmd example_env example_config))"
  have h1: "folder_exists example_world" by (simp add: example_world_def)
  have h2: "backup_try ?ok (\<lambda>_. None) example_env (make_config example_env example_now) example_world =
     (Inl ?err, snd (backup_try ?ok (\<lambda>_. None) example_env (make_config example_env example_now) example_world))"
    unfolding example_config_def [symmetric] by (simp add: example_config_eval) code_simp
  have h3: "email_configured example_env"
    by (simp add: email_configured_def example_env_def empty_env_def)
  have h4: "\<not> ?ok (failure_email example_env (make_config example_env example_now) ?err)"
    by (simp add: failure_email_def email_cmd_def tar_cmd_def)
  show ?thesis using h1 h2 h3 h4 failure_email_failure_exits_nonzero [OF h1 h2 h3 h4] by simp
qed

theorem mkdir_failure_runs_nothing_witness:
  "\<not> folder_exists (example_world\<lparr>folder_exists := False\<rparr>) \<and>
   run_script (Some ''EACCES: permission denied'') (\<lambda>_. True) (\<lambda>_. None) example_env example_now
     (example_world\<lparr>folder_exists := False\<rparr>) =
     (Inl (Fs_error ''EACCES: permission denied''), example_world\<lparr>folder_exists := False\<rparr>)"
  using mkdir_failure_runs_nothing [of "example_world\<lparr>folder_exists := False\<rparr>"] by simp

theorem success_message_uri_prefix_witness:
  "MONGO_URI example_env = Some ''mongodb://u:p@host/db'' \<and> ''mongodb://u:p@host/db'' \<noteq> [] \<and>
   mongo_message_uri example_env = ''mongodb://u:p'' \<and>
   success_message example_env = ''Backup of mongodb://u:p completed and uploaded.''"
proof -
  have h: "MONGO_URI example_env = Some ''mongodb://u:p@host/db''" by (simp add: example_env_def empty_env_def)
  show ?thesis using h success_message_uri_prefix [OF h] by simp
qed

end
