(* ===== verification/Dates.thy ===== *)
theory Dates
  imports Retention "HOL-Library.Product_Lexorder" "HOL-Library.Sublist"
begin

text \<open>
  The date of an archive: what \<open>new Date(s).getTime()\<close> of the runtime returns on the
  strings the pruner passes it (line 77 of \<^verbatim>\<open>src/run.ts\<close>), and why the date the
  pruner reads back out of an archive name is the time of the run that wrote it.
  \<open>date_time_ms\<close> models the ECMAScript Date Time String Format
  \<open>YYYY-MM-DDTHH:mm:ss\<close> (no offset: local time, which is UTC in the container)
  and returns the milliseconds since the epoch; any other string is an Invalid Date
  (\<open>None\<close>) here, where the runtime's fallback parser might still accept it.
  The lemmas show that \<open>run_time\<close> orders runs chronologically, that each archive
  name written by \<open>make_config\<close> is read back to its \<open>run_time\<close>, and that the
  removal pattern of one archive matches no other archive of the same backup name.
\<close>

section \<open>Reading decimal fields\<close>

definition digit_of :: "char \<Rightarrow> nat option" where
  "digit_of c = (if CHR ''0'' \<le> c \<and> c \<le> CHR ''9'' then Some (of_char c - 48) else None)"

definition read_nat :: "string \<Rightarrow> nat option" where
  "read_nat s =
     (if s \<noteq> [] \<and> list_all (\<lambda>c. digit_of c \<noteq> None) s
      then Some (foldl (\<lambda>a c. 10 * a + the (digit_of c)) 0 s) else None)"

section \<open>Date.parse on the date-time format\<close>

text \<open>Fixed positions: four year digits, then \<open>-MM-DDTHH:mm:ss\<close>.\<close>

definition parse_date_time :: "string \<Rightarrow> (nat \<times> nat \<times> nat \<times> nat \<times> nat \<times> nat) option" where
  "parse_date_time s =
     (if length s = 19 \<and> s ! 4 = CHR ''-'' \<and> s ! 7 = CHR ''-'' \<and> s ! 10 = CHR ''T'' \<and>
         s ! 13 = CHR '':'' \<and> s ! 16 = CHR '':''
      then (case (read_nat (take 4 s), read_nat (take 2 (drop 5 s)), read_nat (take 2 (drop 8 s)),
                  read_nat (take 2 (drop 11 s)), read_nat (take 2 (drop 14 s)), read_nat (take 2 (drop 17 s))) of
              (Some y, Some mo, Some d, Some h, Some mi, Some se) \<Rightarrow> Some (y, mo, d, h, mi, se)
            | _ \<Rightarrow> None)
      else None)"

text \<open>The day number of a date since 1970-01-01 in the proleptic Gregorian calendar
  (MakeDay of ECMAScript), and the time value in milliseconds (MakeDate, MakeTime).\<close>

definition leaps_through :: "int \<Rightarrow> int" where
  "leaps_through y = y div 4 - y div 100 + y div 400"

definition days_before_year :: "int \<Rightarrow> int" where
  "days_before_year y = 365 * (y - 1970) + (leaps_through (y - 1) - leaps_through 1969)"

definition days_before_month :: "int \<Rightarrow> nat \<Rightarrow> nat" where
  "days_before_month y m = sum_list (map (days_in_month y) [1..<m])"

definition day_number :: "int \<Rightarrow> nat \<Rightarrow> nat \<Rightarrow> int" where
  "day_number y m d = days_before_year y + int (days_before_month y m) + int d - 1"

definition time_value :: "int \<Rightarrow> nat \<Rightarrow> nat \<Rightarrow> nat \<Rightarrow> nat \<Rightarrow> nat \<Rightarrow> int" where
  "time_value y mo d h mi se = 1000 * (day_number y mo d * 86400 + int (h * 3600 + mi * 60 + se))"

text \<open>Month, day and time must be in range (\<open>24:00:00\<close> is allowed); otherwise the
  result is an Invalid Date.\<close>

definition date_time_ms :: "string \<Rightarrow> int option" where
  "date_time_ms s =
     (case parse_date_time s of
        None \<Rightarrow> None
      | Some (y, mo, d, h, mi, se) \<Rightarrow>
          if 1 \<le> mo \<and> mo \<le> 12 \<and> 1 \<le> d \<and> d \<le> days_in_month (int y) mo \<and>
             (h < 24 \<and> mi < 60 \<and> se < 60 \<or> h = 24 \<and> mi = 0 \<and> se = 0)
          then Some (time_value (int y) mo d h mi se) else None)"

section \<open>The time of a run\<close>

definition year_length :: "int \<Rightarrow> nat" where
  "year_length y = (if leap_year y then 366 else 365)"

definition valid_ymd :: "int \<Rightarrow> nat \<Rightarrow> nat \<Rightarrow> bool" where
  "valid_ymd y m d \<longleftrightarrow> 1 \<le> m \<and> m \<le> 12 \<and> 1 \<le> d \<and> d \<le> days_in_month y m"

definition datetime_key :: "datetime \<Rightarrow> (int \<times> nat \<times> nat) \<times> (nat \<times> nat \<times> nat)" where
  "datetime_key d = ((dt_year d, dt_month d, dt_day d), (dt_hour d, dt_minute d, dt_second d))"

definition run_time :: "datetime \<Rightarrow> int" where
  "run_time d = time_value (dt_year d) (dt_month d) (dt_day d) (dt_hour d) (dt_minute d) (dt_second d)"

text \<open>The name of the archive a run leaves in the backup folder: the file
  \<open>bakcupArchiveFilePath\<close> that tar or mongodump writes, seen from the folder.\<close>

definition archive_file :: "env \<Rightarrow> datetime \<Rightarrow> string" where
  "archive_file e d = bakcupArchiveName (make_config e d) @ ''.zip''"

section \<open>Lemmas\<close>

lemma digit_of_char_of: "d < 10 \<Longrightarrow> digit_of (char_of (48 + d)) = Some d"
proof -
  assume "d < 10"
  then have oc: "of_char (char_of (48 + d) :: char) = (48 + d :: nat)" by (simp add: of_char_of)
  then show ?thesis using \<open>d < 10\<close> by (simp add: digit_of_def less_eq_char_def)
qed

lemma digit_of_zero [simp]: "digit_of CHR ''0'' = Some 0"
  by (simp add: digit_of_def)

lemma dec_digits_digit_of: "c \<in> set (dec_digits n) \<Longrightarrow> \<exists>d. digit_of c = Some d"
proof (induction n rule: dec_digits.induct)
  case (1 n)
  then show ?case
    by (subst (asm) dec_digits.simps) (auto simp: digit_of_char_of split: if_splits)
qed

lemma foldl_dec_digits:
  "foldl (\<lambda>a c. 10 * a + the (digit_of c)) acc (dec_digits n) = acc * 10 ^ length (dec_digits n) + n"
proof (induction n arbitrary: acc rule: dec_digits.induct)
  case (1 n)
  show ?case
  proof (cases "n < 10")
    case True
    then show ?thesis by (simp add: dec_digits.simps [of n] digit_of_char_of)
  next
    case False
    have "n mod 10 < 10" by simp
    with False "1.IH" [of acc] show ?thesis
      by (subst (1 2) dec_digits.simps) (simp add: digit_of_char_of algebra_simps)
  qed
qed

lemma length_dec_digits: "n < 10 ^ k \<Longrightarrow> 0 < k \<Longrightarrow> length (dec_digits n) \<le> k"
proof (induction n arbitrary: k rule: dec_digits.induct)
  case (1 n)
  show ?case
  proof (cases "n < 10")
    case True
    with "1.prems" show ?thesis by (subst dec_digits.simps) simp
  next
    case False
    with "1.prems" obtain k' where k: "k = Suc k'" and k': "0 < k'"
      by (cases k; cases "k - 1") auto
    from "1.prems" k have "n div 10 < 10 ^ k'" by (simp add: less_mult_imp_div_less)
    with "1.IH" False k' have "length (dec_digits (n div 10)) \<le> k'" by simp
    with False k show ?thesis by (subst dec_digits.simps) simp
  qed
qed

lemma foldl_zeros: "foldl (\<lambda>a c. 10 * a + the (digit_of c)) 0 (replicate k CHR ''0'') = 0"
  by (induction k) simp_all

lemma read_nat_pad0: "n < 10 ^ w \<Longrightarrow> 0 < w \<Longrightarrow> read_nat (pad0 w n) = Some n"
proof -
  assume "n < 10 ^ w" "0 < w"
  have all: "list_all (\<lambda>c. digit_of c \<noteq> None) (pad0 w n)"
    by (auto simp: pad0_def Let_def list_all_iff dec_digits_digit_of)
  have "foldl (\<lambda>a c. 10 * a + the (digit_of c)) 0 (pad0 w n) = n"
    by (simp add: pad0_def Let_def foldl_zeros foldl_dec_digits)
  with all show ?thesis by (simp add: read_nat_def pad0_def Let_def)
qed

lemma length_pad0: "n < 10 ^ w \<Longrightarrow> 0 < w \<Longrightarrow> length (pad0 w n) = w"
  using length_dec_digits [of n w] by (simp add: pad0_def Let_def)

lemma pad0_digits: "c \<in> set (pad0 w n) \<Longrightarrow> CHR ''0'' \<le> c \<and> c \<le> CHR ''9''"
  using dec_digits_digits [of n] by (auto simp: pad0_def Let_def)

lemma takeWhile_upto: "x \<notin> set p \<Longrightarrow> takeWhile (\<lambda>c. c \<noteq> x) (p @ x # r) = p"
  by (induction p) auto

lemma pad0_no_dot [simp]: "CHR ''.'' \<notin> set (pad0 w n)"
  using pad0_digits [of "CHR ''.''" w n] by (auto simp: less_eq_char_def)

lemma pad0_no_colon [simp]: "CHR '':'' \<notin> set (pad0 w n)"
  using pad0_digits [of "CHR '':''" w n] by (auto simp: less_eq_char_def)

lemma pad0_no_underscore [simp]: "CHR ''_'' \<notin> set (pad0 w n)"
  using pad0_digits [of "CHR ''_''" w n] by (auto simp: less_eq_char_def)

lemma to_iso_string_parts:
  assumes "0 \<le> dt_year d" "dt_year d \<le> 9999"
  shows "to_iso_string d =
     (pad0 4 (nat (dt_year d)) @ ''-'' @ pad0 2 (dt_month d) @ ''-'' @ pad0 2 (dt_day d) @ ''T'' @
      pad0 2 (dt_hour d) @ '':'' @ pad0 2 (dt_minute d) @ '':'' @ pad0 2 (dt_second d)) @
     CHR ''.'' # pad0 3 (dt_ms d) @ ''Z''"
  using assms by (simp add: to_iso_string_def iso_year_def)

lemma current_date_sufix_parts:
  assumes "0 \<le> dt_year d" "dt_year d \<le> 9999"
  shows "current_date_sufix d =
     pad0 4 (nat (dt_year d)) @ ''-'' @ pad0 2 (dt_month d) @ ''-'' @ pad0 2 (dt_day d) @ ''T'' @
     pad0 2 (dt_hour d) @ ''_'' @ pad0 2 (dt_minute d) @ ''_'' @ pad0 2 (dt_second d)"
proof -
  let ?p = "pad0 4 (nat (dt_year d)) @ ''-'' @ pad0 2 (dt_month d) @ ''-'' @ pad0 2 (dt_day d) @ ''T'' @
      pad0 2 (dt_hour d) @ '':'' @ pad0 2 (dt_minute d) @ '':'' @ pad0 2 (dt_second d)"
  have "CHR ''.'' \<notin> set ?p" by simp
  then have "takeWhile (\<lambda>c. c \<noteq> CHR ''.'') (to_iso_string d) = ?p"
    by (subst to_iso_string_parts [OF assms]) (rule takeWhile_upto)
  moreover have "replace_char CHR '':'' CHR ''_'' (pad0 w n) = pad0 w n" for w n
    by (simp add: replace_char_id)
  ultimately show ?thesis
    by (simp add: current_date_sufix_def replace_char_def)
qed

lemma days_in_month_le: "days_in_month y m \<le> 31"
  by simp

lemma parse_date_time_fields:
  assumes "length Y = 4" "length M = 2" "length D = 2" "length H = 2" "length Mi = 2" "length S = 2"
    and "read_nat Y = Some y" "read_nat M = Some mo" "read_nat D = Some dd"
    and "read_nat H = Some h" "read_nat Mi = Some mi" "read_nat S = Some se"
  shows "parse_date_time (Y @ CHR ''-'' # M @ CHR ''-'' # D @ CHR ''T'' # H @ CHR '':'' # Mi @ CHR '':'' # S) =
           Some (y, mo, dd, h, mi, se)"
  using assms by (simp add: parse_date_time_def nth_append)

lemma date_time_ms_sufix:
  assumes v: "valid_datetime d" and y: "0 \<le> dt_year d" "dt_year d \<le> 9999"
  shows "date_time_ms (replace_char CHR ''_'' CHR '':'' (current_date_sufix d)) =
           Some (time_value (dt_year d) (dt_month d) (dt_day d) (dt_hour d) (dt_minute d) (dt_second d))"
proof -
  define Y M D H Mi S where "Y = pad0 4 (nat (dt_year d))" and "M = pad0 2 (dt_month d)"
    and "D = pad0 2 (dt_day d)" and "H = pad0 2 (dt_hour d)" and "Mi = pad0 2 (dt_minute d)"
    and "S = pad0 2 (dt_second d)"
  have b: "nat (dt_year d) < 10 ^ 4" "dt_month d < 10 ^ 2" "dt_day d < 10 ^ 2" "dt_hour d < 10 ^ 2"
      "dt_minute d < 10 ^ 2" "dt_second d < 10 ^ 2"
    using v y days_in_month_le [of "dt_year d" "dt_month d"] by (auto simp: valid_datetime_def)
  have len: "length Y = 4" "length M = 2" "length D = 2" "length H = 2" "length Mi = 2" "length S = 2"
    using b by (simp_all add: Y_def M_def D_def H_def Mi_def S_def length_pad0)
  have rd: "read_nat Y = Some (nat (dt_year d))" "read_nat M = Some (dt_month d)"
      "read_nat D = Some (dt_day d)" "read_nat H = Some (dt_hour d)"
      "read_nat Mi = Some (dt_minute d)" "read_nat S = Some (dt_second d)"
    using b by (simp_all add: Y_def M_def D_def H_def Mi_def S_def read_nat_pad0)
  have unrep: "replace_char CHR ''_'' CHR '':'' (pad0 w n) = pad0 w n" for w n
    by (simp add: replace_char_id)
  have str: "replace_char CHR ''_'' CHR '':'' (current_date_sufix d) =
      Y @ ''-'' @ M @ ''-'' @ D @ ''T'' @ H @ '':'' @ Mi @ '':'' @ S"
    using y unrep by (simp add: current_date_sufix_parts Y_def M_def D_def H_def Mi_def S_def replace_char_def)
  have parsed: "parse_date_time (replace_char CHR ''_'' CHR '':'' (current_date_sufix d)) =
      Some (nat (dt_year d), dt_month d, dt_day d, dt_hour d, dt_minute d, dt_second d)"
    unfolding str using parse_date_time_fields [OF len rd] by simp
  show ?thesis
    using v y by (simp add: parsed date_time_ms_def valid_datetime_def del: days_in_month.simps)
qed

lemma div_step:
  assumes k: "1 < (k::int)"
  shows "y div k - (y - 1) div k = (if k dvd y then 1 else 0)"
proof -
  let ?m = "(y - 1) mod k"
  have eq: "y div k = (y - 1) div k + (?m + 1) div k"
    using div_add1_eq [of "y - 1" 1 k] k by simp
  have r: "0 \<le> ?m" "?m < k" using k by simp_all
  have md: "y mod k = (?m + 1) mod k"
    using mod_add_left_eq [of "y - 1" k 1] by simp
  show ?thesis
  proof (cases "?m + 1 = k")
    case True
    then have "(?m + 1) div k = 1" and "y mod k = 0" using k md by simp_all
    with eq show ?thesis by (simp add: dvd_eq_mod_eq_0)
  next
    case False
    with r have lt: "0 \<le> ?m + 1" "?m + 1 < k" by simp_all
    then have "(?m + 1) div k = 0" by (simp add: div_pos_pos_trivial)
    moreover from lt md have "y mod k = ?m + 1" by (simp add: mod_pos_pos_trivial)
    ultimately show ?thesis using eq r by (simp add: dvd_eq_mod_eq_0)
  qed
qed

lemma leaps_through_step: "leaps_through y - leaps_through (y - 1) = (if leap_year y then 1 else 0)"
proof -
  have "400 dvd y \<Longrightarrow> 100 dvd y" "100 dvd y \<Longrightarrow> 4 dvd y"
    by (auto elim: dvd_trans [rotated])
  moreover note div_step [of 4 y] div_step [of 100 y] div_step [of 400 y]
  ultimately show ?thesis
    by (cases "400 dvd y"; cases "100 dvd y"; cases "4 dvd y") (simp_all add: leaps_through_def)
qed

lemma days_before_year_Suc: "days_before_year (y + 1) = days_before_year y + int (year_length y)"
  using leaps_through_step [of y] by (simp add: days_before_year_def year_length_def algebra_simps)

lemma days_before_year_mono: "y \<le> y' \<Longrightarrow> days_before_year y \<le> days_before_year y'"
proof -
  assume "y \<le> y'"
  then obtain k where y': "y' = y + int k" by (metis le_iff_add nat_int zle_iff_zadd)
  have "days_before_year y \<le> days_before_year (y + int k)"
  proof (induction k)
    case 0
    then show ?case by simp
  next
    case (Suc k)
    have "y + int (Suc k) = (y + int k) + 1" by simp
    then have "days_before_year (y + int (Suc k)) = days_before_year (y + int k) + int (year_length (y + int k))"
      using days_before_year_Suc [of "y + int k"] by presburger
    with Suc.IH show ?case by simp
  qed
  with y' show ?thesis by simp
qed

lemma days_before_month_Suc:
  "1 \<le> m \<Longrightarrow> days_before_month y (Suc m) = days_before_month y m + days_in_month y m"
  by (simp add: days_before_month_def)

lemma days_before_month_mono:
  "1 \<le> m \<Longrightarrow> m \<le> m' \<Longrightarrow> days_before_month y m \<le> days_before_month y m'"
proof (induction m')
  case 0
  then show ?case by simp
next
  case (Suc m')
  show ?case
  proof (cases "m = Suc m'")
    case True
    then show ?thesis by simp
  next
    case False
    with Suc.prems have "1 \<le> m'" "m \<le> m'" by simp_all
    with Suc.IH Suc.prems(1) show ?thesis by (simp add: days_before_month_Suc)
  qed
qed

lemma days_before_month_13: "days_before_month y 13 = year_length y"
  by (simp add: days_before_month_def year_length_def upt_rec)

lemma day_of_year_bound:
  "1 \<le> m \<Longrightarrow> m \<le> 12 \<Longrightarrow> d \<le> days_in_month y m \<Longrightarrow>
   days_before_month y m + d \<le> year_length y"
proof -
  assume m: "1 \<le> m" "m \<le> 12" and d: "d \<le> days_in_month y m"
  have "days_before_month y m + d \<le> days_before_month y (Suc m)"
    using m d by (simp add: days_before_month_Suc del: days_in_month.simps)
  also have "\<dots> \<le> days_before_month y 13"
    using m by (intro days_before_month_mono) simp_all
  finally show ?thesis by (simp add: days_before_month_13)
qed

lemma day_number_less:
  assumes v: "valid_ymd y m d" "valid_ymd y' m' d'" and lt: "(y, m, d) < (y', m', d')"
  shows "day_number y m d < day_number y' m' d'"
proof -
  from lt consider "y < y'" | "y = y'" "m < m'" | "y = y'" "m = m'" "d < d'"
    by (auto simp: less_prod_def')
  then show ?thesis
  proof cases
    case 1
    have "days_before_month y m + d \<le> year_length y"
      using v(1) by (simp add: valid_ymd_def day_of_year_bound del: days_in_month.simps)
    moreover have "days_before_year (y + 1) \<le> days_before_year y'"
      using 1 by (simp add: days_before_year_mono)
    moreover have "1 \<le> d'" using v(2) by (simp add: valid_ymd_def)
    ultimately show ?thesis
      using days_before_year_Suc [of y] by (simp add: day_number_def)
  next
    case 2
    have "days_before_month y m + d \<le> days_before_month y (Suc m)"
      using v(1) by (simp add: valid_ymd_def days_before_month_Suc del: days_in_month.simps)
    also have "\<dots> \<le> days_before_month y m'"
      using 2 v(1) by (intro days_before_month_mono) (simp_all add: valid_ymd_def)
    finally have "days_before_month y m + d \<le> days_before_month y m'" .
    moreover have "1 \<le> d'" using v(2) by (simp add: valid_ymd_def)
    ultimately show ?thesis using 2 by (simp add: day_number_def)
  next
    case 3
    then show ?thesis by (simp add: day_number_def)
  qed
qed

lemma seconds_of_day_less:
  assumes "mi < 60" "se < 60" "mi' < 60" "se' < 60" and lt: "(h, mi, se) < (h', mi', se')"
  shows "h * 3600 + mi * 60 + se < h' * 3600 + mi' * 60 + (se' :: nat)"
  using assms by (auto simp: less_prod_def')

lemma run_time_less:
  assumes "valid_datetime d1" "valid_datetime d2" and lt: "datetime_key d1 < datetime_key d2"
  shows "run_time d1 < run_time d2"
proof -
  let ?ymd1 = "(dt_year d1, dt_month d1, dt_day d1)" and ?ymd2 = "(dt_year d2, dt_month d2, dt_day d2)"
  let ?s1 = "dt_hour d1 * 3600 + dt_minute d1 * 60 + dt_second d1"
  let ?s2 = "dt_hour d2 * 3600 + dt_minute d2 * 60 + dt_second d2"
  have v: "valid_ymd (dt_year d1) (dt_month d1) (dt_day d1)" "valid_ymd (dt_year d2) (dt_month d2) (dt_day d2)"
    using assms(1,2) by (simp_all add: valid_datetime_def valid_ymd_def del: days_in_month.simps)
  have s: "?s1 < 86400" "?s2 < 86400" using assms(1,2) by (simp_all add: valid_datetime_def)
  from lt consider "?ymd1 < ?ymd2" | "?ymd1 = ?ymd2" "(dt_hour d1, dt_minute d1, dt_second d1) < (dt_hour d2, dt_minute d2, dt_second d2)"
    by (auto simp: datetime_key_def less_prod_def')
  then show ?thesis
  proof cases
    case 1
    then have "day_number (dt_year d1) (dt_month d1) (dt_day d1) < day_number (dt_year d2) (dt_month d2) (dt_day d2)"
      using v by (intro day_number_less) simp_all
    with s show ?thesis by (simp add: run_time_def time_value_def)
  next
    case 2
    then have "?s1 < ?s2"
      using assms(1,2) by (intro seconds_of_day_less) (simp_all add: valid_datetime_def)
    with 2 show ?thesis by (simp add: run_time_def time_value_def)
  qed
qed

lemma date_char_pad0: "c \<in> set (pad0 w n) \<Longrightarrow> date_char c"
  using pad0_digits by (simp add: date_char_def)

lemma sufix_date_chars:
  "0 \<le> dt_year d \<Longrightarrow> dt_year d \<le> 9999 \<Longrightarrow> list_all date_char (current_date_sufix d)"
  by (auto simp: current_date_sufix_parts list_all_iff date_char_def dest: date_char_pad0)

lemma length_sufix:
  assumes "valid_datetime d" "0 \<le> dt_year d" "dt_year d \<le> 9999"
  shows "length (current_date_sufix d) = 19"
proof -
  have b: "nat (dt_year d) < 10 ^ 4" "dt_month d < 10 ^ 2" "dt_day d < 10 ^ 2" "dt_hour d < 10 ^ 2"
      "dt_minute d < 10 ^ 2" "dt_second d < 10 ^ 2"
    using assms days_in_month_le [of "dt_year d" "dt_month d"] by (auto simp: valid_datetime_def)
  then show ?thesis using assms(2,3) by (simp add: current_date_sufix_parts length_pad0)
qed

lemma takeWhile_all_append: "list_all P xs \<Longrightarrow> takeWhile P (xs @ ys) = xs @ takeWhile P ys"
  by (induction xs) simp_all

lemma archive_date_group_written:
  assumes "list_all date_char s"
  shows "archive_date_group (p @ CHR ''.'' # s @ ''.zip'') = Some s"
proof -
  have nd: "\<not> date_char CHR ''.''" by (simp add: date_char_def less_eq_char_def)
  have "take (length (p @ CHR ''.'' # s @ ''.zip'') - 4) (p @ CHR ''.'' # s @ ''.zip'') = p @ CHR ''.'' # s"
    by simp
  moreover have "takeWhile date_char (rev s @ CHR ''.'' # rev p) = rev s"
    using assms nd by (simp add: takeWhile_all_append list_all_rev)
  ultimately show ?thesis by (simp add: archive_date_group_def)
qed

lemma zip_listing_zip: "zip_listing (x @ ''.zip'')"
  by (simp add: zip_listing_def nth_append)

lemma run_time_sufix:
  assumes "valid_datetime d" "0 \<le> dt_year d" "dt_year d \<le> 9999"
  shows "date_time_ms (replace_char CHR ''_'' CHR '':'' (current_date_sufix d)) = Some (run_time d)"
  using date_time_ms_sufix [OF assms] by (simp add: run_time_def)

text \<open>
  C13. The archive a run writes is read back by the pruner: its name passes the
  \<open>/.zip$/\<close> filter and \<open>getDateFromArchiveName\<close> returns the time of that run (for
  a valid date with a four-digit year, as \<open>toISOString\<close> writes it).
\<close>

theorem written_archive_dated:
  assumes "valid_datetime d" "0 \<le> dt_year d" "dt_year d \<le> 9999"
  shows "zip_listing (archive_file e d) \<and>
         get_date_from_archive_name date_time_ms (archive_file e d) = Inr (Some (run_time d))"
  using assms archive_date_group_written [OF sufix_date_chars [OF assms(2,3)], of "backup_name e"]
    zip_listing_zip [of "backup_name e @ CHR ''.'' # current_date_sufix d", simplified]
  by (simp add: archive_file_def get_date_from_archive_name_def run_time_sufix)

lemma glob_match_star_Cons:
  "glob_match (CHR ''*'' # ps) (x # xs) \<longleftrightarrow>
   glob_match ps (x # xs) \<or> x \<noteq> CHR ''/'' \<and> glob_match (CHR ''*'' # ps) xs"
  by (subst glob_match.simps(2)) simp

lemma glob_match_star: "glob_match ''*'' s \<longleftrightarrow> CHR ''/'' \<notin> set s"
proof (induction s)
  case Nil
  show ?case by simp
next
  case (Cons x xs)
  then show ?case by (simp only: glob_match_star_Cons glob_match.simps(1)) auto
qed

lemma glob_match_prefix_star:
  "CHR ''*'' \<notin> set p \<Longrightarrow> glob_match (p @ ''*'') s \<longleftrightarrow> (\<exists>r. s = p @ r \<and> CHR ''/'' \<notin> set r)"
proof (induction p arbitrary: s)
  case Nil
  then show ?case by (simp del: glob_match.simps add: glob_match_star)
next
  case (Cons c ps)
  then show ?case by (cases s) auto
qed

lemma no_zip_before:
  assumes nz: "\<not> sublist ''.zip'' nm" and s: "list_all date_char s" "s \<noteq> []"
    and i: "i < length (nm @ CHR ''.'' # s)"
  shows "take 4 (drop i (nm @ CHR ''.'' # s @ ''.zip'')) \<noteq> ''.zip''"
proof
  let ?X = "nm @ CHR ''.'' # s @ ''.zip''"
  assume t': "take 4 (drop i ?X) = ''.zip''"
  then have "length (take 4 (drop i ?X)) = 4" by simp
  then have len: "i + 4 \<le> length ?X" by simp
  have at: "?X ! (i + k) = ''.zip'' ! k" if k: "k < 4" for k
  proof -
    have "drop i ?X ! k = ?X ! (i + k)" by (rule nth_drop) (use len in linarith)
    then have "?X ! (i + k) = drop i ?X ! k" by simp
    also have "\<dots> = take 4 (drop i ?X) ! k" by (rule nth_take [symmetric]) (rule k)
    finally show ?thesis by (simp only: t')
  qed
  have nodot: "k < length s \<Longrightarrow> s ! k \<noteq> CHR ''.'' \<and> s ! k \<noteq> CHR ''z''" for k
    using s(1) by (auto simp: list_all_length date_char_def less_eq_char_def)
  consider "i + 4 \<le> length nm" | "i < length nm" "length nm < i + 4" | "i = length nm" | "length nm < i"
    by linarith
  then show False
  proof cases
    case 1
    then have z: "4 - (length nm - i) = 0" by simp
    have "take 4 (drop i ?X) = take 4 (drop i nm)"
      by (simp only: drop_append take_append length_drop z take_0 append_Nil2)
    with t' have "take 4 (drop i nm) = ''.zip''" by simp
    then have "sublist ''.zip'' nm" by (metis sublist_drop sublist_take sublist_order.dual_order.trans)
    with nz show False by simp
  next
    case 2
    define k where "k = length nm - i"
    have k: "k < 4" "i + k = length nm" and k3: "k = 1 \<or> k = 2 \<or> k = 3"
      using 2 unfolding k_def by linarith+
    have "?X ! (i + k) = CHR ''.''" by (simp add: k(2) nth_append)
    with at [OF k(1)] k3 show False by auto
  next
    case 3
    then have "?X ! (i + 1) = s ! 0" using s(2) by (simp add: nth_append)
    with at [of 1] nodot [of 0] s(2) show False by simp
  next
    case 4
    define j where "j = i - Suc (length nm)"
    have j: "i = Suc (length nm) + j" "j < length s" using 4 i unfolding j_def by simp_all
    have "?X ! i = s ! j" unfolding j(1) using j(2) by (simp add: nth_append)
    with at [of 0] nodot [OF j(2)] show False by simp
  qed
qed


lemma run_time_eq_key:
  assumes "valid_datetime d1" "valid_datetime d2" and "run_time d1 = run_time d2"
  shows "datetime_key d1 = datetime_key d2"
proof (rule ccontr)
  assume "datetime_key d1 \<noteq> datetime_key d2"
  then consider "datetime_key d1 < datetime_key d2" | "datetime_key d2 < datetime_key d1"
    by (meson neqE)
  then show False
    using run_time_less [OF assms(1,2)] run_time_less [OF assms(2,1)] assms(3) by cases auto
qed

lemma sufix_key:
  assumes "datetime_key d1 = datetime_key d2" "0 \<le> dt_year d1" "dt_year d1 \<le> 9999"
  shows "current_date_sufix d1 = current_date_sufix d2"
proof -
  have "0 \<le> dt_year d2" "dt_year d2 \<le> 9999" using assms by (simp_all add: datetime_key_def)
  with assms show ?thesis by (simp add: current_date_sufix_parts datetime_key_def)
qed

lemma sufix_eq_iff:
  assumes "valid_datetime d1" "0 \<le> dt_year d1" "dt_year d1 \<le> 9999"
    and "valid_datetime d2" "0 \<le> dt_year d2" "dt_year d2 \<le> 9999"
  shows "current_date_sufix d1 = current_date_sufix d2 \<longleftrightarrow> datetime_key d1 = datetime_key d2"
proof
  assume "current_date_sufix d1 = current_date_sufix d2"
  then have "run_time d1 = run_time d2"
    using run_time_sufix [OF assms(1-3)] run_time_sufix [OF assms(4-6)] by simp
  with assms(1,4) show "datetime_key d1 = datetime_key d2" by (rule run_time_eq_key)
next
  assume "datetime_key d1 = datetime_key d2"
  then show "current_date_sufix d1 = current_date_sufix d2" using assms(2,3) by (rule sufix_key)
qed

lemma date_chars_no:
  "list_all date_char s \<Longrightarrow> CHR ''/'' \<notin> set s \<and> CHR ''*'' \<notin> set s \<and> CHR ''.'' \<notin> set s"
  by (auto simp: list_all_iff date_char_def less_eq_char_def)

lemma removal_path_written:
  assumes f: "plain_segment folder" and nm: "CHR ''/'' \<notin> set nm" "\<not> sublist ''.zip'' nm"
    and s: "list_all date_char s" "s \<noteq> []"
  shows "removal_path folder (nm @ CHR ''.'' # s @ ''.zip'') = folder @ CHR ''/'' # nm @ CHR ''.'' # s @ ''*''"
proof -
  have "replace_first ''.zip'' ''*'' ((nm @ CHR ''.'' # s) @ ''.zip'' @ []) = (nm @ CHR ''.'' # s) @ ''*'' @ []"
  proof (rule replace_first_append_match)
    fix i
    assume "i < length (nm @ CHR ''.'' # s)"
    from no_zip_before [OF nm(2) s this]
    show "take (length ''.zip'') (drop i ((nm @ CHR ''.'' # s) @ ''.zip'' @ [])) \<noteq> ''.zip''"
      by (simp add: numeral_eq_Suc)
  qed
  then have r: "replace_first ''.zip'' ''*'' (nm @ CHR ''.'' # s @ ''.zip'') = nm @ CHR ''.'' # s @ ''*''"
    by simp
  have "plain_segment (nm @ CHR ''.'' # s @ ''*'')"
    using nm(1) date_chars_no [OF s(1)] by (auto simp: plain_segment_def)
  with f r show ?thesis by (simp add: removal_path_def path_join_plain)
qed

lemma glob_entry_written:
  assumes f: "plain_segment folder" "CHR ''*'' \<notin> set folder"
    and nm: "CHR ''/'' \<notin> set nm" "CHR ''*'' \<notin> set nm"
    and s: "list_all date_char s1" "list_all date_char s2" "length s1 = length s2"
  shows "glob_entry folder (folder @ CHR ''/'' # nm @ CHR ''.'' # s1 @ ''*'') (nm @ CHR ''.'' # s2 @ ''.zip'') \<longleftrightarrow>
         s1 = s2"
proof -
  let ?P = "folder @ CHR ''/'' # nm @ CHR ''.'' # s1"
  let ?e = "nm @ CHR ''.'' # s2 @ ''.zip''"
  note n1 = date_chars_no [OF s(1)] and n2 = date_chars_no [OF s(2)]
  have pe: "plain_segment ?e"
    using nm(1) n2 by (auto simp: plain_segment_def)
  have join: "path_join folder ?e = folder @ CHR ''/'' # ?e"
    using f(1) pe by (simp add: path_join_plain)
  have star: "CHR ''*'' \<notin> set ?P" using f(2) nm(2) n1 by simp
  have "glob_match (?P @ ''*'') (folder @ CHR ''/'' # ?e) \<longleftrightarrow>
        (\<exists>r. folder @ CHR ''/'' # ?e = ?P @ r \<and> CHR ''/'' \<notin> set r)"
    by (rule glob_match_prefix_star [OF star])
  also have "\<dots> \<longleftrightarrow> (\<exists>r. s2 @ ''.zip'' = s1 @ r \<and> CHR ''/'' \<notin> set r)"
    by simp
  also have "\<dots> \<longleftrightarrow> s1 = s2"
    using s(3) by (auto simp: append_eq_append_conv)
  finally have m: "glob_match (?P @ ''*'') (folder @ CHR ''/'' # ?e) \<longleftrightarrow> s1 = s2" .
  have "path_basename (folder @ CHR ''/'' # nm @ CHR ''.'' # s1 @ ''*'') = nm @ CHR ''.'' # s1 @ ''*''"
    using nm(1) n1 by (simp add: path_basename_plain)
  moreover have "take 1 (nm @ CHR ''.'' # s1 @ ''*'') = take 1 ?e" by (cases nm) simp_all
  moreover have "?e \<noteq> [] \<and> hd ?e = CHR ''.'' \<longrightarrow> take 1 ?e = ''.''" by (cases ?e) simp_all
  ultimately have hidden: "?e \<noteq> [] \<and> hd ?e = CHR ''.'' \<longrightarrow>
      take 1 (path_basename (folder @ CHR ''/'' # nm @ CHR ''.'' # s1 @ ''*'')) = ''.''"
    by (simp only:)
  show ?thesis
    using m hidden join by (simp add: glob_entry_def)
qed

lemma archive_file_parts:
  "archive_file e d = backup_name e @ CHR ''.'' # current_date_sufix d @ ''.zip''"
  by (simp add: archive_file_def)



text \<open>The archive of the run at 2020-01-02T03:04:05.006 is dated 1577934245000 ms
  after the epoch.\<close>

theorem written_archive_dated_witness:
  "valid_datetime \<lparr>dt_year = 2020, dt_month = 1, dt_day = 2, dt_hour = 3, dt_minute = 4, dt_second = 5, dt_ms = 6\<rparr> \<and>
   zip_listing (archive_file empty_env \<lparr>dt_year = 2020, dt_month = 1, dt_day = 2, dt_hour = 3, dt_minute = 4, dt_second = 5, dt_ms = 6\<rparr>) \<and>
   get_date_from_archive_name date_time_ms
     (archive_file empty_env \<lparr>dt_year = 2020, dt_month = 1, dt_day = 2, dt_hour = 3, dt_minute = 4, dt_second = 5, dt_ms = 6\<rparr>) =
   Inr (Some 1577934245000)"
proof -
  let ?d = "\<lparr>dt_year = 2020, dt_month = 1, dt_day = 2, dt_hour = 3, dt_minute = 4, dt_second = 5, dt_ms = 6::nat\<rparr>"
  have v: "valid_datetime ?d" by (simp add: valid_datetime_def)
  have y: "0 \<le> dt_year ?d" "dt_year ?d \<le> 9999" by simp_all
  have t: "run_time ?d = 1577934245000"
    by (simp add: run_time_def time_value_def day_number_def days_before_year_def leaps_through_def
        days_before_month_def)
  show ?thesis using v written_archive_dated [OF v y, of empty_env] t by simp
qed

text \<open>
  C15. For a backup folder and a backup name without slashes, glob stars or \<open>.zip\<close>,
  the \<open>rm -rf\<close> pattern the pruner builds for the archive of one run matches, among
  the archives of that backup name, exactly that archive: the archive of any other run
  (another second) is never removed with it.
\<close>

theorem removal_pattern_selects_own_archive:
  assumes folder: "plain_segment (backup_folder e)" "CHR ''*'' \<notin> set (backup_folder e)"
    and name: "CHR ''/'' \<notin> set (backup_name e)" "CHR ''*'' \<notin> set (backup_name e)"
      "\<not> sublist ''.zip'' (backup_name e)"
    and d1: "valid_datetime d1" "0 \<le> dt_year d1" "dt_year d1 \<le> 9999"
    and d2: "valid_datetime d2" "0 \<le> dt_year d2" "dt_year d2 \<le> 9999"
  shows "glob_entry (backup_folder e) (removal_path (backup_folder e) (archive_file e d1)) (archive_file e d2)
           \<longleftrightarrow> datetime_key d1 = datetime_key d2"
proof -
  let ?s1 = "current_date_sufix d1" and ?s2 = "current_date_sufix d2"
  have c1: "list_all date_char ?s1" using d1(2,3) by (rule sufix_date_chars)
  have c2: "list_all date_char ?s2" using d2(2,3) by (rule sufix_date_chars)
  have l: "length ?s1 = 19" "length ?s2 = 19" using d1 d2 by (simp_all add: length_sufix)
  then have ne: "?s1 \<noteq> []" by auto
  have "removal_path (backup_folder e) (archive_file e d1) =
      backup_folder e @ CHR ''/'' # backup_name e @ CHR ''.'' # ?s1 @ ''*''"
    unfolding archive_file_parts using folder(1) name(1,3) c1 ne by (rule removal_path_written)
  then have "glob_entry (backup_folder e) (removal_path (backup_folder e) (archive_file e d1)) (archive_file e d2)
      \<longleftrightarrow> ?s1 = ?s2"
    using glob_entry_written [OF folder name(1,2) c1 c2] l by (simp add: archive_file_parts)
  also have "\<dots> \<longleftrightarrow> datetime_key d1 = datetime_key d2" using d1 d2 by (rule sufix_eq_iff)
  finally show ?thesis .
qed

theorem removal_pattern_selects_own_archive_witness:
  "plain_segment (backup_folder empty_env) \<and> CHR ''*'' \<notin> set (backup_folder empty_env) \<and>
   CHR ''/'' \<notin> set (backup_name empty_env) \<and> CHR ''*'' \<notin> set (backup_name empty_env) \<and>
   \<not> sublist ''.zip'' (backup_name empty_env) \<and>
   valid_datetime \<lparr>dt_year = 2020, dt_month = 2, dt_day = 29, dt_hour = 3, dt_minute = 4, dt_second = 5, dt_ms = 6\<rparr> \<and>
   valid_datetime \<lparr>dt_year = 2020, dt_month = 3, dt_day = 1, dt_hour = 3, dt_minute = 4, dt_second = 5, dt_ms = 6\<rparr> \<and>
   \<not> glob_entry (backup_folder empty_env)
       (removal_path (backup_folder empty_env)
          (archive_file empty_env \<lparr>dt_year = 2020, dt_month = 2, dt_day = 29, dt_hour = 3, dt_minute = 4, dt_second = 5, dt_ms = 6\<rparr>))
       (archive_file empty_env \<lparr>dt_year = 2020, dt_month = 3, dt_day = 1, dt_hour = 3, dt_minute = 4, dt_second = 5, dt_ms = 6\<rparr>)"
proof -
  let ?d1 = "\<lparr>dt_year = 2020, dt_month = 2, dt_day = 29, dt_hour = 3, dt_minute = 4, dt_second = 5, dt_ms = 6::nat\<rparr>"
  let ?d2 = "\<lparr>dt_year = 2020, dt_month = 3, dt_day = 1, dt_hour = 3, dt_minute = 4, dt_second = 5, dt_ms = 6::nat\<rparr>"
  have f: "plain_segment (backup_folder empty_env)" "CHR ''*'' \<notin> set (backup_folder empty_env)"
    by (simp_all add: backup_folder_def empty_env_def plain_segment_def)
  have n: "CHR ''/'' \<notin> set (backup_name empty_env)" "CHR ''*'' \<notin> set (backup_name empty_env)"
      "\<not> sublist ''.zip'' (backup_name empty_env)"
    by (simp_all add: backup_name_def empty_env_def) code_simp
  have v: "valid_datetime ?d1" "valid_datetime ?d2" by (simp_all add: valid_datetime_def)
  have y: "0 \<le> dt_year ?d1" "dt_year ?d1 \<le> 9999" "0 \<le> dt_year ?d2" "dt_year ?d2 \<le> 9999" by simp_all
  show ?thesis
    using f n v removal_pattern_selects_own_archive [OF f n v(1) y(1,2) v(2) y(3,4)]
    by (simp add: datetime_key_def)
qed

end
