(* ===== verification/Spec2Isabelle.thy ===== *)
theory Spec2Isabelle
  imports Orchestrator Dates
begin

text \<open>
  \<^bold>\<open>A shallow embedding of the MongoDB backup script \<^verbatim>\<open>src/run.ts\<close>.\<close>

  \<^bold>\<open>The program.\<close> \<^verbatim>\<open>src/run.ts\<close> is a single Node script run once per backup
  (\<^verbatim>\<open>src/test.ts\<close> only loads it with test settings). At load time it reads its
  settings from \<open>process.env\<close>, derives the backup folder, the backup name and a
  date suffix from \<open>new Date()\<close>, and creates the folder if it is missing. Then one
  \<open>try\<close> block runs, in order, \<open>backupMongo\<close> (mongodump, and tar unless archive mode
  is on), \<open>uploadBackupToS3\<close> (\<open>aws s3 cp\<close> when a bucket is set),
  \<open>removeOldLocalBackups\<close> (the retention pruner) and the success report
  (\<open>sendEmail\<close> unless \<open>EMAIL_ONLY_ON_ERROR\<close>, then a log line). Its \<open>catch\<close>
  sends a failure e-mail with the error's message; an error of the \<open>catch\<close> itself
  ends the process with a non-zero status. Every external command goes through
  \<open>exec\<close>, which logs it and throws \<open>Command failed: <cmd>\<close> on a non-zero exit.

  \<^bold>\<open>How the theories model it.\<close>
  \<^item> \<open>Prelude\<close>: the exception-and-state monad \<open>('s, 'a) exc\<close>
    (\<open>returnE\<close>, \<open>throwE\<close>, \<open>thenE\<close>, \<open>catchE\<close>, \<open>seqE\<close>) in which every
    function of the script is written: a thrown JavaScript error is an \<open>Inl\<close> result,
    a normal return an \<open>Inr\<close>; \<open>js_error\<close> lists the errors the script can meet.
  \<^item> \<open>Js_Lib\<close>: the parts of the JavaScript runtime the script relies on, as
    executable functions: truthiness and \<open>||\<close> on optional strings, template
    interpolation, \<open>split\<close>/\<open>join\<close>, \<open>replace\<close> of the first match,
    \<open>slice(0, e)\<close>, \<open>parseInt\<close>, \<open>path.join\<close>/\<open>basename\<close>, and
    \<open>Array.prototype.sort\<close> as a stable insertion sort with its equivalence to
    \<open>sort_key\<close>.
  \<^item> \<open>Shell\<close>: \<open>exec\<close> (lines 33--36). The commands the script builds are the
    datatype \<open>cmd\<close>, rendered to the exact shell strings by \<open>render_cmd\<close>; the
    state \<open>world\<close> is the backup folder (does it exist, its entries), the commands
    run so far and the console. Whether a command succeeds is the parameter
    \<open>ok\<close>; what a successful command does to the folder is \<open>cmd_effect\<close>, the
    documented contract of the tools (mongodump and tar create their output entry,
    \<open>rm -rf\<close> removes what its glob patterns match, the AWS commands leave the folder
    alone). A failing command is assumed to leave the folder unchanged.
  \<^item> \<open>Config\<close>: the \<open>env\<close> record (lines 5--29), \<open>toISOString\<close> and the date
    suffix, \<open>make_config\<close> for the module constants (lines 49--59) and
    \<open>ensure_backup_folder\<close> (line 61), whose \<open>mkdirSync\<close> outcome is a parameter.
  \<^item> \<open>Dump\<close>: \<open>getCredParams\<close> and \<open>backupMongo\<close> (lines 92--122);
    \<open>Upload\<close>: \<open>uploadBackupToS3\<close> (lines 63--71); \<open>Notify\<close>: \<open>sendEmail\<close>
    (lines 38--47); \<open>Retention\<close>: \<open>removeOldLocalBackups\<close> (lines 73--90), with
    the date parser \<open>date_ms\<close> as a parameter; \<open>Orchestrator\<close>: the success report,
    the \<open>try\<close>/\<open>catch\<close> and the whole script \<open>run_script\<close> (lines 49--144).
  \<^item> \<open>Dates\<close>: \<open>new Date(s).getTime()\<close> on the date-time strings the pruner
    builds (\<open>date_time_ms\<close>, from the ECMAScript Date Time String Format), the time
    of a run, and the link between the archive names the script writes and the dates
    the pruner reads back.

  \<^bold>\<open>What is proved.\<close>
  \<^item> Retention (C1, C4, C5): on dated archives, the pruner keeps exactly the newest
    \<open>max\<close> and removes the others with one \<open>rm -rf\<close>; at \<open>count = max\<close> it runs
    \<open>rm -rf\<close> with no operand; its sort is the stable ascending sort by date.
  \<^item> Dates (C13, C14, C15): the archive a run writes is listed and dated by the
    pruner with the time of that run; that time orders runs chronologically; the
    removal pattern of an archive matches no other archive of the same backup name.
    Together these discharge the hypotheses of C1 for the archives the script writes
    itself, so C1 then says: the archives of the newest \<open>max\<close> runs are kept.
  \<^item> Orchestrator (C2, C3, C9--C12, C16): a failing dump is followed only by the
    failure e-mail; the success e-mail is sent exactly when configured and not
    \<open>EMAIL_ONLY_ON_ERROR\<close>; every error of the \<open>try\<close> block leads to the failure
    e-mail; a failing success e-mail also leads to it; a failing failure e-mail and a
    failing \<open>mkdirSync\<close> end the script with that error; the success message shows
    the URI up to its first \<open>@\<close>.
  \<^item> Dump and Upload (C6, C7, C8): archive mode selects exactly one dump form and the
    mongodump command carries it; a connection URI excludes the discrete credentials;
    the upload runs one \<open>aws s3 cp\<close> to \<open>s3://<bucket>/<file name>\<close> exactly when a
    bucket is set.
  \<^item> The whole script (C17, below): \<open>KEEP_REMOTE_BACKUPS_COUNT\<close> has no effect.
  \<^item> The findings below, each a theorem on a concrete run.

  \<^bold>\<open>Assumptions and bounds.\<close> No loop of the script is unbounded: every recursion
  of the model is structural, so no fuel is needed. External commands are judged only
  by \<open>ok\<close> and by the contract \<open>cmd_effect\<close>. The container runs in UTC, so
  \<open>new Date()\<close> is read in UTC and \<open>new Date(s)\<close> without offset is UTC.
  \<open>date_time_ms\<close> covers the format the script writes (a four-digit year); strings
  outside it are Invalid Dates here, where the runtime's fallback parser may accept
  some. C13--C15 assume a valid date with a year in 0..9999 and, for C15, a backup folder
  that is one plain path segment and a backup name without \<open>/\<close>, \<open>*\<close> or \<open>.zip\<close>.
  Shell globbing is modelled for \<open>*\<close> only (the script writes no \<open>?\<close> or
  \<open>[\<close>). \<open>util.inspect\<close> is modelled for short string arrays on one line.

  \<^bold>\<open>Not modelled.\<close> \<^verbatim>\<open>src/test.ts\<close> (it only sets test environment values and
  imports the script); the unused \<open>checkDateSufix\<close> (line 55); the contents of the
  files the tools write; concurrent runs; timeouts of hung commands.
\<close>

section \<open>Remote retention\<close>

lemma remote_count_config: "make_config (e\<lparr>KEEP_REMOTE_BACKUPS_COUNT := x\<rparr>) d = make_config e d"
  by (simp add: make_config_def backup_folder_def backup_name_def)

lemma remote_count_send:
  "send_email ok (e\<lparr>KEEP_REMOTE_BACKUPS_COUNT := x\<rparr>) folder subj msg = send_email ok e folder subj msg"
  by (simp add: send_email_def email_configured_def email_cmd_def)

lemma remote_count_dump: "backup_mongo ok (e\<lparr>KEEP_REMOTE_BACKUPS_COUNT := x\<rparr>) cfg = backup_mongo ok e cfg"
  by (simp add: backup_mongo_def mongo_cmd_def get_cred_params_def collection_filters_def
      exclude_collections_def dump_target_def)

lemma remote_count_upload:
  "upload_backup_to_s3 ok (e\<lparr>KEEP_REMOTE_BACKUPS_COUNT := x\<rparr>) folder p = upload_backup_to_s3 ok e folder p"
  by (simp add: upload_backup_to_s3_def s3_path_def)

lemma remote_count_max: "max_backups_count (e\<lparr>KEEP_REMOTE_BACKUPS_COUNT := x\<rparr>) = max_backups_count e"
  by (simp add: max_backups_count_def)

lemma remote_count_prune:
  "remove_old_local_backups ok date_ms (e\<lparr>KEEP_REMOTE_BACKUPS_COUNT := x\<rparr>) folder =
   remove_old_local_backups ok date_ms e folder"
proof -
  have old: "old_backups (e\<lparr>KEEP_REMOTE_BACKUPS_COUNT := x\<rparr>) = old_backups e"
    by (simp add: fun_eq_iff old_backups_def remote_count_max)
  show ?thesis unfolding remove_old_local_backups_def remote_count_max old ..
qed

lemma remote_count_report: "report_success ok (e\<lparr>KEEP_REMOTE_BACKUPS_COUNT := x\<rparr>) cfg = report_success ok e cfg"
  by (simp add: report_success_def success_message_def mongo_message_uri_def remote_count_send)

text \<open>
  C17. \<open>KEEP_REMOTE_BACKUPS_COUNT\<close> is read into the settings but nothing uses it:
  the whole run, every command, log line, folder change and error included, is the same
  for every value of it. Remote copies are never pruned.
\<close>

theorem remote_count_unused:
  "run_script mkdir_err ok date_ms (e\<lparr>KEEP_REMOTE_BACKUPS_COUNT := x\<rparr>) now =
   run_script mkdir_err ok date_ms e now"
  by (simp add: run_script_def backup_main_def backup_try_def backup_steps_def remote_count_config
      remote_count_send remote_count_dump remote_count_upload remote_count_prune remote_count_report)

section \<open>Findings\<close>

text \<open>
  A file named \<open>.zip\<close> in the backup folder matches \<open>/.zip$/\<close>, yields the empty
  date group and an Invalid Date, and sorts first; its removal pattern is
  \<open>backup/*\<close>. Once the folder holds \<open>max\<close> such names, the pruner removes every
  archive of the folder, and only the hidden file, which \<open>*\<close> does not match, stays.
\<close>

theorem hidden_zip_empties_folder:
  "snd (remove_old_local_backups (\<lambda>_. True) date_time_ms (empty_env\<lparr>KEEP_LOCAL_BACKUPS_COUNT := Some ''2''\<rparr>)
      ''backup'' \<lparr>folder_exists = True,
        dir = [''.zip'', ''db.2020-01-01T00_00_00.zip'', ''db.2020-01-02T00_00_00.zip''], ran = [], console = []\<rparr>) =
   \<lparr>folder_exists = True, dir = [''.zip''], ran = [Rm_rf [''backup/*'']],
    console = [''Removing old backups [ '' @ CHR 0x27 # ''.zip'' @ CHR 0x27 # '' ]'', ''Executing rm -rf backup/*'']\<rparr>"
  by code_simp

text \<open>
  A negative \<open>KEEP_LOCAL_BACKUPS_COUNT\<close> passes the threshold for every count and
  \<open>slice(0, 1)\<close> then selects the oldest archive: with only the archive just written,
  that archive is removed.
\<close>

theorem negative_keep_count_removes_latest:
  "ran (snd (remove_old_local_backups (\<lambda>_. True) date_time_ms (empty_env\<lparr>KEEP_LOCAL_BACKUPS_COUNT := Some ''-1''\<rparr>)
      ''backup'' \<lparr>folder_exists = True, dir = [''db.2020-01-01T00_00_00.zip''], ran = [], console = []\<rparr>)) =
     [Rm_rf [''backup/db.2020-01-01T00_00_00*'']] \<and>
   dir (snd (remove_old_local_backups (\<lambda>_. True) date_time_ms (empty_env\<lparr>KEEP_LOCAL_BACKUPS_COUNT := Some ''-1''\<rparr>)
      ''backup'' \<lparr>folder_exists = True, dir = [''db.2020-01-01T00_00_00.zip''], ran = [], console = []\<rparr>)) = []"
  by code_simp

text \<open>
  A name ending in \<open>.zip\<close> but carrying no date is not a lookup failure: its date
  group is empty and its date Invalid. The lookup fails only for names that end in
  \<open>zip\<close> without the dot, which the unescaped \<open>/.zip$/\<close> lets through.
\<close>

theorem undated_zip_names:
  "get_date_from_archive_name date_time_ms ''notes.zip'' = Inr None \<and>
   zip_listing ''backupzip'' \<and>
   get_date_from_archive_name date_time_ms ''backupzip'' = Inl (Type_error null_index_message)"
  by code_simp

text \<open>
  With a backup name containing \<open>.zip\<close>, \<open>replace(/\.zip/, '*')\<close> replaces that
  occurrence, not the extension: the pattern no longer matches the dump folder of the
  run, which is never removed. For an ordinary name it does.
\<close>

theorem zip_in_backup_name_keeps_dump_folder:
  "removal_path ''backup'' ''db.zip.2020-01-01T00_00_00.zip'' = ''backup/db*.2020-01-01T00_00_00.zip'' \<and>
   \<not> glob_entry ''backup'' (removal_path ''backup'' ''db.zip.2020-01-01T00_00_00.zip'') ''db.zip.2020-01-01T00_00_00'' \<and>
   glob_entry ''backup'' (removal_path ''backup'' ''db.2020-01-01T00_00_00.zip'') ''db.2020-01-01T00_00_00''"
  by code_simp

text \<open>\<open>KEEP_LOCAL_BACKUPS_COUNT=0\<close> is read as the default 10 (\<open>0 || 10\<close>).\<close>

theorem zero_keep_count_is_ten:
  "max_backups_count (empty_env\<lparr>KEEP_LOCAL_BACKUPS_COUNT := Some ''0''\<rparr>) = 10"
  by code_simp

text \<open>
  Without \<open>AWS_BUCKET\<close> nothing is uploaded, yet the success e-mail says the backup
  was \<open>completed and uploaded\<close>; its source string keeps the user name and password
  of the URI.
\<close>

theorem uploaded_without_bucket:
  "ran (snd (run_script None (\<lambda>_. True) date_time_ms (example_env\<lparr>AWS_BUCKET := None\<rparr>) example_now example_world)) =
     [mongo_cmd (example_env\<lparr>AWS_BUCKET := None\<rparr>) example_config,
      email_cmd example_env (success_subject example_config) ''Backup of mongodb://u:p completed and uploaded.'']"
  unfolding example_config_def by code_simp

end
